theory Spec2Isabelle
  imports Complex_Main "HOL-Library.Word" "HOL-Library.AList"
begin

section \<open>Strings\<close>

text \<open>
  A JavaScript string is a sequence of 16-bit code units. String literals of the source
  are all ASCII; \<open>lit\<close> embeds them.
\<close>

type_synonym jstring = "16 word list"

definition lit :: "string \<Rightarrow> jstring" where
  "lit s = map of_char s"

text \<open>
  \<open>String.prototype.trim\<close> removes the ECMAScript WhiteSpace and LineTerminator code
  points from both ends: TAB, LF, VT, FF, CR, SP, NBSP, the Unicode space separators,
  LS, PS and the byte order mark.
\<close>

definition js_whitespace :: "16 word \<Rightarrow> bool" where
  "js_whitespace c \<longleftrightarrow> c \<in> {0x9, 0xA, 0xB, 0xC, 0xD, 0x20, 0xA0, 0x1680,
     0x2000, 0x2001, 0x2002, 0x2003, 0x2004, 0x2005, 0x2006, 0x2007, 0x2008, 0x2009, 0x200A,
     0x2028, 0x2029, 0x202F, 0x205F, 0x3000, 0xFEFF}"

definition trim :: "jstring \<Rightarrow> jstring" where
  "trim s = rev (dropWhile js_whitespace (rev (dropWhile js_whitespace s)))"

definition startsWith :: "jstring \<Rightarrow> jstring \<Rightarrow> bool" where
  "startsWith s p \<longleftrightarrow> take (length p) s = p"

definition endsWith :: "jstring \<Rightarrow> jstring \<Rightarrow> bool" where
  "endsWith s p \<longleftrightarrow> length p \<le> length s \<and> drop (length s - length p) s = p"

text \<open>
  The fence stripping of \<open>generatePresentationStructure\<close> (lines 202-213) and of
  \<open>enhancePresentation\<close> (lines 241-246): the text that is handed to \<open>JSON.parse\<close>.
  \<open>slice(7)\<close> and \<open>slice(3)\<close> drop a prefix, \<open>slice(0, -3)\<close> drops the last three
  code units.
\<close>

definition strip_code_fence :: "jstring \<Rightarrow> jstring" where
  "strip_code_fence response =
     (let jsonStr = trim response;
          jsonStr = (if startsWith jsonStr (lit ''```json'') then drop 7 jsonStr
                     else if startsWith jsonStr (lit ''```'') then drop 3 jsonStr
                     else jsonStr);
          jsonStr = (if endsWith jsonStr (lit ''```'') then take (length jsonStr - 3) jsonStr
                     else jsonStr)
      in trim jsonStr)"

text \<open>
  The shape of a JSON text, as far as the fences are concerned: after trimming it is not
  empty, it starts with the first character of a JSON value (an object, an array, a
  string, a number, true, false or null) and ends with the last character of one.
\<close>

definition json_first_char :: "16 word \<Rightarrow> bool" where
  "json_first_char c \<longleftrightarrow> c \<in> set (lit ''{[\"-0123456789tfn'')"

definition json_last_char :: "16 word \<Rightarrow> bool" where
  "json_last_char c \<longleftrightarrow> c \<in> set (lit ''}]\"0123456789el'')"

definition json_shaped :: "jstring \<Rightarrow> bool" where
  "json_shaped t \<longleftrightarrow>
     trim t \<noteq> [] \<and> json_first_char (hd (trim t)) \<and> json_last_char (last (trim t))"

definition all_whitespace :: "jstring \<Rightarrow> bool" where
  "all_whitespace w \<longleftrightarrow> list_all js_whitespace w"

section \<open>Values\<close>

text \<open>
  The values the server handles are the ones \<open>JSON.parse\<close> and the HTTP libraries
  produce, and \<open>undefined\<close>. A number is modelled by the rational it denotes
  (\<open>JSON.parse\<close> yields no NaN; the infinity it reads from an overflowing literal is
  left out). An object is the list of its own properties in insertion order.
\<close>

datatype jsval =
    JUndefined
  | JNull
  | JBool bool
  | JNum rat
  | JStr jstring
  | JArr "jsval list"
  | JObj "(jstring \<times> jsval) list"

text \<open>
  What the server throws and catches: \<open>new Error(message)\<close>, and the built-in
  \<open>TypeError\<close> and \<open>SyntaxError\<close>, whose message text is the engine's.
\<close>

datatype js_error = Error jstring | TypeError | SyntaxError

fun truthy :: "jsval \<Rightarrow> bool" where
  "truthy JUndefined = False"
| "truthy JNull = False"
| "truthy (JBool b) = b"
| "truthy (JNum q) = (q \<noteq> 0)"
| "truthy (JStr s) = (s \<noteq> [])"
| "truthy (JArr xs) = True"
| "truthy (JObj kvs) = True"

fun nullish :: "jsval \<Rightarrow> bool" where
  "nullish JUndefined = True"
| "nullish JNull = True"
| "nullish v = False"

text \<open>
  A property key is an array index when it is the canonical decimal numeral of a natural
  number: digits only, no leading zero.
\<close>

definition is_digit :: "16 word \<Rightarrow> bool" where
  "is_digit c \<longleftrightarrow> 0x30 \<le> c \<and> c \<le> 0x39"

definition index_of_key :: "jstring \<Rightarrow> nat option" where
  "index_of_key k =
     (if k = [] \<or> \<not> list_all is_digit k \<or> (hd k = 0x30 \<and> 1 < length k) then None
      else Some (foldl (\<lambda>n c. 10 * n + (unat c - 48)) 0 k))"

text \<open>
  \<open>own_prop v k\<close> is the value of the member access \<open>v[k]\<close> on a value that is neither
  \<open>undefined\<close> nor \<open>null\<close>: an own property of an object, an element or the length of
  an array or a string, and \<open>undefined\<close> otherwise. The keys the source reads by name
  (\<open>slides\<close>, \<open>content\<close>, \<open>text\<close>, ...) are not members of a built-in prototype.
\<close>

fun own_prop :: "jsval \<Rightarrow> jstring \<Rightarrow> jsval" where
  "own_prop (JObj kvs) k = (case map_of kvs k of Some v \<Rightarrow> v | None \<Rightarrow> JUndefined)"
| "own_prop (JArr xs) k =
     (case index_of_key k of
        Some i \<Rightarrow> if i < length xs then xs ! i else JUndefined
      | None \<Rightarrow> if k = lit ''length'' then JNum (of_nat (length xs)) else JUndefined)"
| "own_prop (JStr s) k =
     (case index_of_key k of
        Some i \<Rightarrow> if i < length s then JStr [s ! i] else JUndefined
      | None \<Rightarrow> if k = lit ''length'' then JNum (of_nat (length s)) else JUndefined)"
| "own_prop v k = JUndefined"

text \<open>\<open>v.k\<close>: a TypeError on \<open>undefined\<close> and \<open>null\<close>.\<close>

definition get_prop :: "jsval \<Rightarrow> jstring \<Rightarrow> js_error + jsval" where
  "get_prop v k = (if nullish v then Inl TypeError else Inr (own_prop v k))"

text \<open>\<open>v?.k\<close>\<close>

definition opt_prop :: "jsval \<Rightarrow> jstring \<Rightarrow> jsval" where
  "opt_prop v k = (if nullish v then JUndefined else own_prop v k)"

text \<open>
  \<open>put_prop v k x\<close> is the value after the assignment \<open>v.k = x\<close>, for a \<open>v\<close> that is
  neither \<open>undefined\<close> nor \<open>null\<close> and a key \<open>k\<close> that is a plain name (the source assigns
  \<open>enhancedNotes\<close>, \<open>transition\<close>, \<open>keyTakeaways\<close>, \<open>id\<close>, \<open>createdAt\<close> and \<open>topic\<close>).
  An object gets the property, in place when it has it already and at the end otherwise.
  The module is not in strict mode, so the assignment to a property of a boolean, a
  number or a string does nothing; on an array it adds a named property, which is not an
  element and which \<open>JSON.stringify\<close> does not write.
\<close>

fun put_prop :: "jsval \<Rightarrow> jstring \<Rightarrow> jsval \<Rightarrow> jsval" where
  "put_prop (JObj kvs) k x = JObj (AList.update k x kvs)"
| "put_prop v k x = v"

definition assign_prop :: "jsval \<Rightarrow> jstring \<Rightarrow> jsval \<Rightarrow> js_error + jsval" where
  "assign_prop v k x = (if nullish v then Inl TypeError else Inr (put_prop v k x))"

definition try_bind :: "'e + 'a \<Rightarrow> ('a \<Rightarrow> 'e + 'b) \<Rightarrow> 'e + 'b" where
  "try_bind r f = (case r of Inl e \<Rightarrow> Inl e | Inr x \<Rightarrow> f x)"

section \<open>The upstream adapter\<close>

record chat_message =
  role :: jstring
  content :: jstring

text \<open>The configuration constants of lines 12-14, read once from the environment.\<close>

record config =
  MEGALLM_API_KEY :: jstring
  MEGALLM_MODEL :: jstring
  MEGALLM_API_URL :: jstring

record request =
  url :: jstring
  requestBody :: jsval
  headers :: "(jstring \<times> jstring) list"
  timeout :: nat

text \<open>
  What \<open>axios.post\<close> rejects with: \<open>err_response\<close> (\<open>error.response\<close>) holds the status
  and the body of a non-2xx answer, \<open>err_code\<close> (\<open>error.code\<close>) the error code (\<open>ECONNABORTED\<close>, \<open>ENOTFOUND\<close>, ...).
\<close>

record axios_error =
  err_response :: "(nat \<times> jsval) option"
  err_code :: "jstring option"

text \<open>
  The value caught at line 125: a rejection of \<open>axios.post\<close>, or a built-in error
  (\<open>new URL\<close> on an invalid URL, a member access on \<open>undefined\<close>), which has no
  \<open>response\<close> and none of the codes the handler tests.
\<close>

datatype caught = Axios axios_error | Native js_error

text \<open>
  The library functions the server calls, as parameters: \<open>url_hostname u\<close> is
  \<open>new URL(u).hostname\<close> (\<open>None\<close> when the constructor throws), \<open>axios_post\<close> the
  upstream answer (\<open>response.data\<close>) or rejection for a request, \<open>JSON_parse\<close> is
  \<open>JSON.parse\<close> (\<open>None\<close> for its SyntaxError), \<open>to_string\<close> the string conversion of a
  template literal, \<open>engine_message\<close> the message text of a built-in error.
\<close>

record platform =
  url_hostname :: "jstring \<Rightarrow> jstring option"
  axios_post :: "request \<Rightarrow> axios_error + jsval"
  JSON_parse :: "jstring \<Rightarrow> jsval option"
  JSON_stringify :: "jsval \<Rightarrow> jstring"
  to_string :: "jsval \<Rightarrow> jstring"
  engine_message :: "js_error \<Rightarrow> jstring"

text \<open>The status object of lines 17-21 and its initialisation at lines 24-43.\<close>

record apiStatus =
  configured :: bool
  lastCheck :: jsval
  healthy :: bool

definition startup_status :: "config \<Rightarrow> apiStatus" where
  "startup_status cfg =
     \<lparr>configured = (MEGALLM_API_KEY cfg \<noteq> []), lastCheck = JNull, healthy = False\<rparr>"

definition message_object :: "chat_message \<Rightarrow> jsval" where
  "message_object m = JObj [(lit ''role'', JStr (role m)), (lit ''content'', JStr (content m))]"

definition isAnthropicFormat :: "jstring \<Rightarrow> bool" where
  "isAnthropicFormat hostname \<longleftrightarrow> hostname = lit ''api.anthropic.com''"

text \<open>Lines 69-104: the request body and the headers, for either format.\<close>

definition build_request :: "config \<Rightarrow> bool \<Rightarrow> chat_message list \<Rightarrow> rat \<Rightarrow> request" where
  "build_request cfg anthropic messages maxTokens =
     (if anthropic then
        (let systemMsg = find (\<lambda>m. role m = lit ''system'') messages;
             userMsgs = filter (\<lambda>m. role m \<noteq> lit ''system'') messages
         in \<lparr>url = MEGALLM_API_URL cfg,
             requestBody = JObj
               [(lit ''model'', JStr (MEGALLM_MODEL cfg)),
                (lit ''max_tokens'', JNum maxTokens),
                (lit ''system'', JStr (case systemMsg of
                     None \<Rightarrow> []
                   | Some m \<Rightarrow> if content m \<noteq> [] then content m else [])),
                (lit ''messages'', JArr (map message_object userMsgs))],
             headers =
               [(lit ''x-api-key'', MEGALLM_API_KEY cfg),
                (lit ''Content-Type'', lit ''application/json''),
                (lit ''anthropic-version'', lit ''2023-06-01'')],
             timeout = 120000\<rparr>)
      else
        \<lparr>url = MEGALLM_API_URL cfg,
         requestBody = JObj
           [(lit ''model'', JStr (MEGALLM_MODEL cfg)),
            (lit ''messages'', JArr (map message_object messages)),
            (lit ''max_tokens'', JNum maxTokens),
            (lit ''temperature'', JNum (7 / 10))],
         headers =
           [(lit ''Authorization'', lit ''Bearer '' @ MEGALLM_API_KEY cfg),
            (lit ''Content-Type'', lit ''application/json'')],
         timeout = 120000\<rparr>)"

text \<open>Lines 120-124: \<open>response.data.content[0].text\<close> or
  \<open>response.data.choices[0].message.content\<close>.\<close>

definition response_text :: "bool \<Rightarrow> jsval \<Rightarrow> js_error + jsval" where
  "response_text anthropic data =
     (if anthropic then
        try_bind (try_bind (get_prop data (lit ''content''))
          (\<lambda>c. get_prop c (lit ''0'')))
          (\<lambda>x. get_prop x (lit ''text''))
      else
        try_bind (try_bind (try_bind (get_prop data (lit ''choices''))
          (\<lambda>c. get_prop c (lit ''0'')))
          (\<lambda>x. get_prop x (lit ''message'')))
          (\<lambda>m. get_prop m (lit ''content'')))"

fun statusCode :: "caught \<Rightarrow> nat option" where
  "statusCode (Axios e) = map_option fst (err_response e)"
| "statusCode (Native e) = None"

fun errorData :: "caught \<Rightarrow> jsval" where
  "errorData (Axios e) = (case err_response e of None \<Rightarrow> JUndefined | Some r \<Rightarrow> snd r)"
| "errorData (Native e) = JUndefined"

fun errorCode :: "caught \<Rightarrow> jstring option" where
  "errorCode (Axios e) = err_code e"
| "errorCode (Native e) = None"

text \<open>Lines 133-150: the message of the error that the catch block throws.\<close>

definition catch_message :: "platform \<Rightarrow> caught \<Rightarrow> jstring" where
  "catch_message pf error =
     (if statusCode error = Some 401 then
        lit ''Invalid API key. Please check your MEGALLM_API_KEY environment variable.''
      else if statusCode error = Some 429 then
        lit ''API rate limit exceeded. Please wait a moment and try again.''
      else if statusCode error = Some 500 \<or> statusCode error = Some 502
              \<or> statusCode error = Some 503 then
        lit ''AI service is temporarily unavailable. Please try again later.''
      else if errorCode error = Some (lit ''ECONNABORTED'') then
        lit ''Request timed out. The AI service is taking too long to respond. Please try again.''
      else if errorCode error = Some (lit ''ENOTFOUND'')
              \<or> errorCode error = Some (lit ''ECONNREFUSED'') then
        lit ''Cannot connect to AI service. Please check your internet connection.''
      else if truthy (opt_prop (opt_prop (errorData error) (lit ''error'')) (lit ''message'')) then
        lit ''AI Service Error: ''
          @ to_string pf (opt_prop (opt_prop (errorData error) (lit ''error'')) (lit ''message''))
      else
        lit ''Failed to generate presentation. Please try again.'')"

definition missing_key_message :: jstring where
  "missing_key_message =
     lit ''API key not configured. Set MEGALLM_API_KEY environment variable.''"

text \<open>The two writes of the status object, lines 116-117 and 127-128.\<close>

definition mark_healthy :: "jsval \<Rightarrow> apiStatus \<Rightarrow> apiStatus" where
  "mark_healthy now st = st\<lparr>healthy := True, lastCheck := now\<rparr>"

definition mark_unhealthy :: "jsval \<Rightarrow> apiStatus \<Rightarrow> apiStatus" where
  "mark_unhealthy now st = st\<lparr>healthy := False, lastCheck := now\<rparr>"

text \<open>
  \<open>callMegaLLM\<close> (lines 59-152). The result is the status object after the call, the
  requests posted upstream, and the returned text or the thrown error. \<open>now\<close> is
  \<open>new Date().toISOString()\<close> at the last write of \<open>lastCheck\<close>.
\<close>

definition callMegaLLM ::
  "config \<Rightarrow> platform \<Rightarrow> jstring \<Rightarrow> chat_message list \<Rightarrow> rat \<Rightarrow> apiStatus
     \<Rightarrow> apiStatus \<times> request list \<times> (js_error + jsval)" where
  "callMegaLLM cfg pf now messages maxTokens st =
     (if MEGALLM_API_KEY cfg = [] then (st, [], Inl (Error missing_key_message))
      else
        (case url_hostname pf (MEGALLM_API_URL cfg) of
           None \<Rightarrow>
             (mark_unhealthy (JStr now) st, [],
              Inl (Error (catch_message pf (Native TypeError))))
         | Some hostname \<Rightarrow>
             (let req = build_request cfg (isAnthropicFormat hostname) messages maxTokens
              in case axios_post pf req of
                   Inl err \<Rightarrow>
                     (mark_unhealthy (JStr now) st, [req],
                      Inl (Error (catch_message pf (Axios err))))
                 | Inr data \<Rightarrow>
                     (case response_text (isAnthropicFormat hostname) data of
                        Inl err \<Rightarrow>
                          (mark_unhealthy (JStr now) (mark_healthy (JStr now) st), [req],
                           Inl (Error (catch_message pf (Native err))))
                      | Inr text \<Rightarrow> (mark_healthy (JStr now) st, [req], Inr text)))))"

text \<open>The health query, lines 298-312: the JSON body it answers with.\<close>

definition health :: "config \<Rightarrow> apiStatus \<Rightarrow> jsval" where
  "health cfg st =
     JObj ([(lit ''status'', JStr (if configured st then lit ''ok'' else lit ''unconfigured'')),
            (lit ''model'', JStr (MEGALLM_MODEL cfg)),
            (lit ''apiConfigured'', JBool (configured st)),
            (lit ''lastCheck'', lastCheck st),
            (lit ''healthy'', JBool (healthy st))]
           @ (if \<not> configured st then
                [(lit ''message'',
                  JStr (lit ''API key not configured. Set MEGALLM_API_KEY environment variable.''))]
              else []))"

text \<open>The prompt texts of lines 156-194 and 218-233.\<close>

definition structure_systemPrompt :: jstring where
  "structure_systemPrompt = lit (concat [
    ''You are an expert presentation designer. Your task is to create a detailed, professional slideshow structure.\<newline>'',
    ''\<newline>'',
    ''You MUST respond with ONLY valid JSON, no markdown, no explanations. The JSON structure should be:\<newline>'',
    ''{\<newline>'',
    ''  \"title\": \"Main presentation title\",\<newline>'',
    ''  \"subtitle\": \"A compelling subtitle\",\<newline>'',
    ''  \"slides\": [\<newline>'',
    ''    {\<newline>'',
    ''      \"type\": \"title|content|comparison|chart|quote|image|conclusion\",\<newline>'',
    ''      \"title\": \"Slide title\",\<newline>'',
    ''      \"content\": [\"Bullet point 1\", \"Bullet point 2\"],\<newline>'',
    ''      \"notes\": \"Speaker notes\",\<newline>'',
    ''      \"chartData\": { \"type\": \"bar|line|pie|doughnut\", \"labels\": [], \"values\": [], \"label\": \"Dataset name\" },\<newline>'',
    ''      \"imageSearch\": \"search query for relevant image\",\<newline>'',
    ''      \"quote\": { \"text\": \"Quote text\", \"author\": \"Author name\" },\<newline>'',
    ''      \"leftColumn\": { \"title\": \"\", \"content\": [] },\<newline>'',
    ''      \"rightColumn\": { \"title\": \"\", \"content\": [] }\<newline>'',
    ''    }\<newline>'',
    ''  ],\<newline>'',
    ''  \"theme\": {\<newline>'',
    ''    \"primaryColor\": \"#hex\",\<newline>'',
    ''    \"secondaryColor\": \"#hex\",\<newline>'',
    ''    \"backgroundColor\": \"#hex\",\<newline>'',
    ''    \"textColor\": \"#hex\"\<newline>'',
    ''  }\<newline>'',
    ''}\<newline>'',
    ''\<newline>'',
    ''Guidelines:\<newline>'',
    ''- Create 8-15 slides depending on topic complexity\<newline>'',
    ''- Use varied slide types to keep it engaging\<newline>'',
    ''- Include at least 2 charts with realistic data when relevant\<newline>'',
    ''- Add image search queries for visual slides\<newline>'',
    ''- Use professional, modern color schemes\<newline>'',
    ''- Include speaker notes for each slide\<newline>'',
    ''- Make content concise but informative''])"

definition userPrompt :: "jstring \<Rightarrow> jstring" where
  "userPrompt topic =
     lit (concat [
    ''Create a comprehensive, professional presentation about: \"'']) @ topic @
     lit (concat [
    ''\"\<newline>'',
    ''\<newline>'',
    ''Make it visually engaging with charts, images, and varied layouts. Include realistic data for any charts. Make it presentation-ready.''])"

definition enhance_systemPrompt :: jstring where
  "enhance_systemPrompt = lit (concat [
    ''You are enhancing a presentation. Review the content and add:\<newline>'',
    ''1. More detailed speaker notes\<newline>'',
    ''2. Transition suggestions between slides\<newline>'',
    ''3. Key takeaways for conclusion\<newline>'',
    ''\<newline>'',
    ''Respond with ONLY valid JSON in this exact format:\<newline>'',
    ''{\<newline>'',
    ''  \"enhancedSlides\": [\<newline>'',
    ''    {\<newline>'',
    ''      \"slideIndex\": 0,\<newline>'',
    ''      \"enhancedNotes\": \"Detailed speaker notes\",\<newline>'',
    ''      \"transition\": \"Suggested transition to next slide\"\<newline>'',
    ''    }\<newline>'',
    ''  ],\<newline>'',
    ''  \"keyTakeaways\": [\"Takeaway 1\", \"Takeaway 2\", \"Takeaway 3\"]\<newline>'',
    ''}''])"

section \<open>The generation pipeline\<close>

text \<open>
  Lines 202-213 and 241-246: \<open>response.trim()\<close> is a TypeError unless the adapter
  returned a string; the stripped text goes to \<open>JSON.parse\<close>.
\<close>

definition parse_response :: "platform \<Rightarrow> jsval \<Rightarrow> js_error + jsval" where
  "parse_response pf response =
     (case response of
        JStr s \<Rightarrow>
          (case JSON_parse pf (strip_code_fence s) of
             None \<Rightarrow> Inl SyntaxError
           | Some v \<Rightarrow> Inr v)
      | _ \<Rightarrow> Inl TypeError)"

text \<open>\<open>generatePresentationStructure\<close> (lines 155-214).\<close>

definition generatePresentationStructure ::
  "config \<Rightarrow> platform \<Rightarrow> jstring \<Rightarrow> jstring \<Rightarrow> apiStatus
     \<Rightarrow> apiStatus \<times> request list \<times> (js_error + jsval)" where
  "generatePresentationStructure cfg pf now topic st =
     (case callMegaLLM cfg pf now
             [\<lparr>role = lit ''system'', content = structure_systemPrompt\<rparr>,
              \<lparr>role = lit ''user'', content = userPrompt topic\<rparr>] 8000 st of
        (st', reqs, r) \<Rightarrow> (st', reqs, try_bind r (parse_response pf)))"

text \<open>
  The key of a computed member access \<open>slides[k]\<close>: \<open>key_index k\<close> is the array index
  that the string conversion of \<open>k\<close> denotes, if it denotes one. A number converts to its
  decimal numeral, an array of one element to the conversion of that element (the empty
  string for \<open>null\<close>), and \<open>true\<close>, \<open>false\<close>, \<open>null\<close>, \<open>undefined\<close>, objects and longer
  or empty arrays to strings that are no numerals.
\<close>

fun key_index :: "jsval \<Rightarrow> nat option" where
  "key_index (JNum q) = (if 0 \<le> q \<and> of_int \<lfloor>q\<rfloor> = q then Some (nat \<lfloor>q\<rfloor>) else None)"
| "key_index (JStr s) = index_of_key s"
| "key_index (JArr [x]) = (if nullish x then None else key_index x)"
| "key_index v = None"

text \<open>
  The merge runs after \<open>presentation.slides.slice(0, 5)\<close> has returned, so
  \<open>presentation.slides\<close> is an array or a string there.
  \<open>slide_target presentation e\<close> is the index of the element of the slides array that
  \<open>presentation.slides[e.slideIndex]\<close> denotes. In every other case the access yields
  \<open>undefined\<close>, a character of a string, or a member of the array that is not an element
  (its length, an inherited method): the guard may pass, but the assignments then do not
  reach the document.
\<close>

definition slide_target :: "jsval \<Rightarrow> jsval \<Rightarrow> nat option" where
  "slide_target presentation e =
     (case own_prop presentation (lit ''slides'') of
        JArr xs \<Rightarrow>
          (case key_index (own_prop e (lit ''slideIndex'')) of
             Some i \<Rightarrow> if i < length xs then Some i else None
           | None \<Rightarrow> None)
      | _ \<Rightarrow> None)"

text \<open>\<open>presentation.slides[i].f = x\<close> for an element \<open>i\<close> of the slides array.\<close>

definition set_slide_field :: "jsval \<Rightarrow> nat \<Rightarrow> jstring \<Rightarrow> jsval \<Rightarrow> jsval" where
  "set_slide_field presentation i f x =
     (case presentation of
        JObj kvs \<Rightarrow>
          (case map_of kvs (lit ''slides'') of
             Some (JArr xs) \<Rightarrow>
               JObj (AList.update (lit ''slides'') (JArr (xs[i := put_prop (xs ! i) f x])) kvs)
           | _ \<Rightarrow> presentation)
      | _ \<Rightarrow> presentation)"

text \<open>
  The callback of \<open>forEach\<close> (lines 249-254) on one entry \<open>e\<close>. Reading \<open>e.slideIndex\<close>
  throws on a \<open>null\<close> entry, before anything is assigned. Both assignments address the
  same slide, since neither changes \<open>e\<close> or the length of the array.
\<close>

definition apply_enhancement :: "jsval \<Rightarrow> jsval \<Rightarrow> js_error + jsval" where
  "apply_enhancement e presentation =
     (if nullish presentation \<or> nullish e \<or> nullish (own_prop presentation (lit ''slides''))
      then Inl TypeError
      else
        (case slide_target presentation e of
           None \<Rightarrow> Inr presentation
         | Some i \<Rightarrow>
             (case own_prop presentation (lit ''slides'') of
                JArr xs \<Rightarrow>
                  if truthy (xs ! i) then
                    Inr (set_slide_field
                          (set_slide_field presentation i (lit ''enhancedNotes'')
                             (own_prop e (lit ''enhancedNotes'')))
                          i (lit ''transition'') (own_prop e (lit ''transition'')))
                  else Inr presentation
              | _ \<Rightarrow> Inr presentation)))"

text \<open>
  \<open>forEach\<close> over the entries. The presentation is changed in place, so an error thrown at
  one entry leaves the changes of the entries before it: the result is the error, if
  any, and the presentation as it is then.
\<close>

fun forEach_enhancement :: "jsval list \<Rightarrow> jsval \<Rightarrow> js_error option \<times> jsval" where
  "forEach_enhancement [] presentation = (None, presentation)"
| "forEach_enhancement (e # es) presentation =
     (case apply_enhancement e presentation of
        Inl err \<Rightarrow> (Some err, presentation)
      | Inr presentation' \<Rightarrow> forEach_enhancement es presentation')"

text \<open>
  Lines 249-259, the merge: \<open>enhancements.enhancedSlides.forEach\<close> is a TypeError unless
  \<open>enhancedSlides\<close> is an array; then the key takeaways.
\<close>

definition merge_enhancements :: "jsval \<Rightarrow> jsval \<Rightarrow> js_error option \<times> jsval" where
  "merge_enhancements enhancements presentation =
     (if nullish enhancements then (Some TypeError, presentation)
      else
        (case own_prop enhancements (lit ''enhancedSlides'') of
           JArr es \<Rightarrow>
             (case forEach_enhancement es presentation of
                (Some err, presentation') \<Rightarrow> (Some err, presentation')
              | (None, presentation') \<Rightarrow>
                  if truthy (own_prop enhancements (lit ''keyTakeaways'')) then
                    (case assign_prop presentation' (lit ''keyTakeaways'')
                            (own_prop enhancements (lit ''keyTakeaways'')) of
                       Inl err \<Rightarrow> (Some err, presentation')
                     | Inr presentation'' \<Rightarrow> (None, presentation''))
                  else (None, presentation'))
         | _ \<Rightarrow> (Some TypeError, presentation)))"

text \<open>\<open>presentation.slides.slice(0, 5)\<close>: arrays and strings have the method.\<close>

definition slides_slice_0_5 :: "jsval \<Rightarrow> js_error + jsval" where
  "slides_slice_0_5 presentation =
     try_bind (get_prop presentation (lit ''slides''))
       (\<lambda>slides. case slides of
          JArr xs \<Rightarrow> Inr (JArr (take 5 xs))
        | JStr s \<Rightarrow> Inr (JStr (take 5 s))
        | _ \<Rightarrow> Inl TypeError)"

text \<open>
  \<open>enhancePresentation\<close> (lines 217-266). Everything from the construction of the
  messages on is inside the \<open>try\<close>; the \<open>catch\<close> returns the presentation object, with
  whatever the merge had assigned before the error.
\<close>

definition enhancePresentation ::
  "config \<Rightarrow> platform \<Rightarrow> jstring \<Rightarrow> jsval \<Rightarrow> apiStatus
     \<Rightarrow> apiStatus \<times> request list \<times> jsval" where
  "enhancePresentation cfg pf now presentation st =
     (case slides_slice_0_5 presentation of
        Inl err \<Rightarrow> (st, [], presentation)
      | Inr first5 \<Rightarrow>
          (case callMegaLLM cfg pf now
                  [\<lparr>role = lit ''system'', content = enhance_systemPrompt\<rparr>,
                   \<lparr>role = lit ''user'',
                    content = lit ''Enhance this presentation: '' @ JSON_stringify pf first5\<rparr>]
                  4000 st of
             (st', reqs, r) \<Rightarrow>
               (st', reqs,
                case try_bind r (parse_response pf) of
                  Inl err \<Rightarrow> presentation
                | Inr enhancements \<Rightarrow> snd (merge_enhancements enhancements presentation))))"

text \<open>
  The answers of the generate handler: a status and a JSON body. The body of a failure
  is \<open>{ error: error.message || 'Failed to generate presentation' }\<close>.
\<close>

datatype http_response = Response nat jsval

definition error_message :: "platform \<Rightarrow> js_error \<Rightarrow> jstring" where
  "error_message pf err = (case err of Error m \<Rightarrow> m | _ \<Rightarrow> engine_message pf err)"

definition failure_response :: "platform \<Rightarrow> js_error \<Rightarrow> http_response" where
  "failure_response pf err =
     Response 500 (JObj [(lit ''error'',
       JStr (if error_message pf err \<noteq> [] then error_message pf err
             else lit ''Failed to generate presentation''))])"

text \<open>Lines 285-288: the three assignments of the metadata.\<close>

definition add_metadata :: "jstring \<Rightarrow> jstring \<Rightarrow> jstring \<Rightarrow> jsval \<Rightarrow> js_error + jsval" where
  "add_metadata uuid now topic enhancedPresentation =
     try_bind (try_bind (assign_prop enhancedPresentation (lit ''id'') (JStr uuid))
       (\<lambda>p. assign_prop p (lit ''createdAt'') (JStr now)))
       (\<lambda>p. assign_prop p (lit ''topic'') (JStr topic))"

text \<open>
  The handler of \<open>POST /api/generate\<close> (lines 269-295), after the rate limiter. \<open>topic\<close>
  is \<open>req.body.topic\<close>, \<open>undefined\<close> when the body has none; \<open>uuid\<close> is the value of
  \<open>uuidv4()\<close>; \<open>t1\<close>, \<open>t2\<close> and \<open>t3\<close> are the clock readings of the two adapter calls
  and of \<open>createdAt\<close>. The result is the status object afterwards, the requests posted
  upstream, and the answer.
\<close>

definition generate ::
  "config \<Rightarrow> platform \<Rightarrow> jstring \<Rightarrow> jstring \<Rightarrow> jstring \<Rightarrow> jstring \<Rightarrow> jsval \<Rightarrow> apiStatus
     \<Rightarrow> apiStatus \<times> request list \<times> http_response" where
  "generate cfg pf uuid t1 t2 t3 topic st =
     (if \<not> truthy topic then
        (st, [], Response 400 (JObj [(lit ''error'', JStr (lit ''Please provide a topic''))]))
      else
        (case topic of
           JStr s \<Rightarrow>
             if length (trim s) = 0 then
               (st, [], Response 400 (JObj [(lit ''error'', JStr (lit ''Please provide a topic''))]))
             else
               (case generatePresentationStructure cfg pf t1 s st of
                  (st1, reqs1, Inl err) \<Rightarrow> (st1, reqs1, failure_response pf err)
                | (st1, reqs1, Inr presentation) \<Rightarrow>
                    (case enhancePresentation cfg pf t2 presentation st1 of
                       (st2, reqs2, enhancedPresentation) \<Rightarrow>
                         (st2, reqs1 @ reqs2,
                          case add_metadata uuid t3 s enhancedPresentation of
                            Inl err \<Rightarrow> failure_response pf err
                          | Inr document \<Rightarrow> Response 200 document)))
         | _ \<Rightarrow> (st, [], failure_response pf TypeError)))"

section \<open>Error classes\<close>

text \<open>
  The classes of a caught upstream error, in the order the catch block tests them: the
  HTTP status first, then the error code, then everything else.
\<close>

datatype error_class =
  AuthenticationRejected | RateLimited | UpstreamUnavailable | Timeout | Unreachable | Generic

definition error_class :: "caught \<Rightarrow> error_class" where
  "error_class error =
     (if statusCode error = Some 401 then AuthenticationRejected
      else if statusCode error = Some 429 then RateLimited
      else if statusCode error \<in> {Some 500, Some 502, Some 503} then UpstreamUnavailable
      else if errorCode error = Some (lit ''ECONNABORTED'') then Timeout
      else if errorCode error \<in> {Some (lit ''ENOTFOUND''), Some (lit ''ECONNREFUSED'')}
        then Unreachable
      else Generic)"

section \<open>The two wire formats\<close>

text \<open>
  Format A: the key in \<open>x-api-key\<close>, an \<open>anthropic-version\<close> header, no
  \<open>Authorization\<close> header, a top-level \<open>system\<close> field and no \<open>temperature\<close>.
  Format B: a bearer \<open>Authorization\<close> header and neither of the other two, the whole
  message sequence inline, \<open>temperature\<close> 0.7 and no \<open>system\<close> field.
\<close>

definition format_A :: "config \<Rightarrow> request \<Rightarrow> bool" where
  "format_A cfg r \<longleftrightarrow>
     map_of (headers r) (lit ''x-api-key'') = Some (MEGALLM_API_KEY cfg)
     \<and> map_of (headers r) (lit ''anthropic-version'') = Some (lit ''2023-06-01'')
     \<and> map_of (headers r) (lit ''Authorization'') = None
     \<and> own_prop (requestBody r) (lit ''system'') \<noteq> JUndefined
     \<and> own_prop (requestBody r) (lit ''temperature'') = JUndefined"

definition format_B :: "config \<Rightarrow> chat_message list \<Rightarrow> request \<Rightarrow> bool" where
  "format_B cfg messages r \<longleftrightarrow>
     map_of (headers r) (lit ''Authorization'') = Some (lit ''Bearer '' @ MEGALLM_API_KEY cfg)
     \<and> map_of (headers r) (lit ''x-api-key'') = None
     \<and> map_of (headers r) (lit ''anthropic-version'') = None
     \<and> own_prop (requestBody r) (lit ''messages'') = JArr (map message_object messages)
     \<and> own_prop (requestBody r) (lit ''temperature'') = JNum (7 / 10)
     \<and> own_prop (requestBody r) (lit ''system'') = JUndefined"

section \<open>The frame of the merge\<close>

text \<open>
  What the merge may do to a slide: leave it as it is, or, when it is an object, give
  another object with the same fields except for \<open>enhancedNotes\<close> and \<open>transition\<close>.
  What it may do to the slides array: keep its length, keep every slide in that sense,
  and change only truthy slides that an entry of \<open>es\<close> addresses. What it may do to the
  presentation: keep every field other than \<open>slides\<close>, and keep the slides array in
  that sense.
\<close>

definition slide_kept :: "jsval \<Rightarrow> jsval \<Rightarrow> bool" where
  "slide_kept x x' \<longleftrightarrow>
     x' = x \<or> (\<exists>kvs kvs'. x = JObj kvs \<and> x' = JObj kvs'
        \<and> (\<forall>f. f \<noteq> lit ''enhancedNotes'' \<and> f \<noteq> lit ''transition'' \<longrightarrow>
               map_of kvs' f = map_of kvs f))"

definition slides_kept :: "jsval list \<Rightarrow> jsval list \<Rightarrow> jsval list \<Rightarrow> bool" where
  "slides_kept es xs xs' \<longleftrightarrow>
     length xs' = length xs
     \<and> (\<forall>i<length xs. slide_kept (xs ! i) (xs' ! i)
           \<and> (xs' ! i \<noteq> xs ! i \<longrightarrow> truthy (xs ! i)
                \<and> (\<exists>e\<in>set es. key_index (own_prop e (lit ''slideIndex'')) = Some i)))"

definition slides_frame :: "jsval list \<Rightarrow> jsval \<Rightarrow> jsval \<Rightarrow> bool" where
  "slides_frame es p p' \<longleftrightarrow>
     nullish p' = nullish p
     \<and> (\<forall>k. k \<noteq> lit ''slides'' \<longrightarrow> own_prop p' k = own_prop p k)
     \<and> (\<forall>xs. own_prop p (lit ''slides'') = JArr xs \<longrightarrow>
          (\<exists>xs'. own_prop p' (lit ''slides'') = JArr xs' \<and> slides_kept es xs xs'))
     \<and> ((\<forall>xs. own_prop p (lit ''slides'') \<noteq> JArr xs) \<longrightarrow>
          own_prop p' (lit ''slides'') = own_prop p (lit ''slides''))"

section \<open>Example inputs\<close>

definition example_config :: config where
  "example_config =
     \<lparr>MEGALLM_API_KEY = lit ''secret'',
      MEGALLM_MODEL = lit ''claude-opus-4-5-20251101'',
      MEGALLM_API_URL = lit ''https://api.anthropic.com/v1/messages''\<rparr>"

definition unconfigured :: config where
  "unconfigured = example_config\<lparr>MEGALLM_API_KEY := []\<rparr>"

text \<open>
  An upstream that answers the structure request (8000 tokens) with a document of one
  slide and the enhancement request with one entry for slide 0 followed by \<open>null\<close>, and
  the library functions at the values this exchange needs.
\<close>

definition stage1_text :: jstring where
  "stage1_text = lit ''{\"slides\":[{\"title\":\"A\"}]}''"

definition stage1_document :: jsval where
  "stage1_document = JObj [(lit ''slides'', JArr [JObj [(lit ''title'', JStr (lit ''A''))]])]"

definition stage2_text :: jstring where
  "stage2_text =
     lit ''{\"enhancedSlides\":[{\"slideIndex\":0,\"enhancedNotes\":\"N\",\"transition\":\"T\"},null]}''"

definition stage2_enhancements :: jsval where
  "stage2_enhancements =
     JObj [(lit ''enhancedSlides'',
            JArr [JObj [(lit ''slideIndex'', JNum 0),
                        (lit ''enhancedNotes'', JStr (lit ''N'')),
                        (lit ''transition'', JStr (lit ''T''))],
                  JNull])]"

definition example_platform :: platform where
  "example_platform =
     \<lparr>url_hostname = (\<lambda>u. if u = lit ''https://api.anthropic.com/v1/messages''
                           then Some (lit ''api.anthropic.com'') else None),
      axios_post = (\<lambda>r. Inr (JObj [(lit ''content'', JArr [JObj
         [(lit ''type'', JStr (lit ''text'')),
          (lit ''text'', JStr (if own_prop (requestBody r) (lit ''max_tokens'') = JNum 8000
                               then stage1_text else stage2_text))]])])),
      JSON_parse = (\<lambda>s. if s = stage1_text then Some stage1_document
                         else if s = stage2_text then Some stage2_enhancements
                         else None),
      JSON_stringify = (\<lambda>v. lit ''[{\"title\":\"A\"}]''),
      to_string = (\<lambda>v. case v of JStr s \<Rightarrow> s | _ \<Rightarrow> lit ''[object Object]''),
      engine_message = (\<lambda>e. lit ''Cannot read properties of null'')\<rparr>"

text \<open>
  A presentation of two slides with an enhancement result that addresses slide 1, then
  index 7 and index -1; and a presentation whose slides are the four falsy JSON values,
  with an entry for each of them.
\<close>

definition example_presentation :: jsval where
  "example_presentation =
     JObj [(lit ''title'', JStr (lit ''T'')),
           (lit ''slides'', JArr [JObj [(lit ''title'', JStr (lit ''a''))],
                                  JObj [(lit ''title'', JStr (lit ''b''))]])]"

definition example_enhancements :: jsval where
  "example_enhancements =
     JObj [(lit ''enhancedSlides'',
            JArr [JObj [(lit ''slideIndex'', JNum 1),
                        (lit ''enhancedNotes'', JStr (lit ''n'')),
                        (lit ''transition'', JStr (lit ''t''))],
                  JObj [(lit ''slideIndex'', JNum 7),
                        (lit ''enhancedNotes'', JStr (lit ''x'')),
                        (lit ''transition'', JStr (lit ''y''))],
                  JObj [(lit ''slideIndex'', JNum (- 1)),
                        (lit ''enhancedNotes'', JStr (lit ''x'')),
                        (lit ''transition'', JStr (lit ''y''))]]),
           (lit ''keyTakeaways'', JArr [JStr (lit ''k'')])]"

definition falsy_slides_presentation :: jsval where
  "falsy_slides_presentation =
     JObj [(lit ''slides'', JArr [JNull, JBool False, JNum 0, JStr []])]"

definition falsy_slides_enhancements :: jsval where
  "falsy_slides_enhancements =
     JObj [(lit ''enhancedSlides'',
            JArr [JObj [(lit ''slideIndex'', JNum 0), (lit ''enhancedNotes'', JStr (lit ''n''))],
                  JObj [(lit ''slideIndex'', JNum 1), (lit ''enhancedNotes'', JStr (lit ''n''))],
                  JObj [(lit ''slideIndex'', JNum 2), (lit ''enhancedNotes'', JStr (lit ''n''))],
                  JObj [(lit ''slideIndex'', JNum 3), (lit ''enhancedNotes'', JStr (lit ''n''))]])]"

section \<open>Strings: basic facts\<close>

lemma unat_small16: "n < 256 \<Longrightarrow> unat (of_nat n :: 16 word) = n"
  by (simp add: unat_of_nat)

lemma unat_of_char16: "unat (of_char c :: 16 word) = of_char c"
  using unat_small16[OF nat_of_char_less_256, of c] by (simp only: of_nat_of_char)

lemma of_char16_eq_iff: "(of_char a :: 16 word) = of_char b \<longleftrightarrow> a = b"
proof
  assume "(of_char a :: 16 word) = of_char b"
  then have "unat (of_char a :: 16 word) = unat (of_char b :: 16 word)" by (rule arg_cong)
  then have "(of_char a :: nat) = of_char b" by (simp only: unat_of_char16)
  then show "a = b" by (rule of_char_eqI)
next
  assume "a = b" then show "(of_char a :: 16 word) = of_char b" by (rule arg_cong)
qed

lemma inj_of_char16: "inj (of_char :: char \<Rightarrow> 16 word)"
  by (rule injI) (simp only: of_char16_eq_iff)

lemma lit_eq_iff: "lit a = lit b \<longleftrightarrow> a = b"
  unfolding lit_def by (rule inj_map_eq_map[OF inj_of_char16])

lemma lit_Nil_iff: "lit a = [] \<longleftrightarrow> a = []" "[] = lit a \<longleftrightarrow> a = []"
  by (auto simp: lit_def)

lemma length_lit: "length (lit a) = length a"
  by (simp add: lit_def)

lemma lit_append_eq_lit: "lit p @ x = lit m \<Longrightarrow> take (length p) m = p"
proof -
  assume eq: "lit p @ x = lit m"
  have "lit (take (length p) m) = take (length p) (lit m)"
    by (simp add: lit_def take_map)
  also have "\<dots> = take (length p) (lit p @ x)" by (simp only: eq)
  also have "\<dots> = lit p" by (simp add: length_lit)
  finally show ?thesis by (simp only: lit_eq_iff)
qed

section \<open>The adapter\<close>

lemma missing_key_message_nonempty: "missing_key_message \<noteq> []"
  by (simp add: missing_key_message_def lit_Nil_iff)

lemma callMegaLLM_no_key:
  "MEGALLM_API_KEY cfg = [] \<Longrightarrow>
   callMegaLLM cfg pf now messages maxTokens st = (st, [], Inl (Error missing_key_message))"
  by (simp add: callMegaLLM_def)

lemma generate_no_key:
  assumes "MEGALLM_API_KEY cfg = []" and "trim s \<noteq> []"
  shows "generate cfg pf uuid t1 t2 t3 (JStr s) st =
         (st, [], Response 500 (JObj [(lit ''error'', JStr missing_key_message)]))"
proof -
  have s: "s \<noteq> []" using assms(2) by (auto simp: trim_def)
  have g: "generatePresentationStructure cfg pf t1 s st = (st, [], Inl (Error missing_key_message))"
    by (simp add: generatePresentationStructure_def callMegaLLM_no_key[OF assms(1)] try_bind_def)
  show ?thesis
    using s assms(2)
    by (simp add: generate_def g failure_response_def error_message_def
        missing_key_message_nonempty)
qed

lemma generate_status_no_key:
  assumes "MEGALLM_API_KEY cfg = []"
  shows "fst (generate cfg pf uuid t1 t2 t3 topic st) = st"
proof (cases "\<exists>s. topic = JStr s \<and> trim s \<noteq> []")
  case True
  then show ?thesis using generate_no_key[OF assms] by auto
next
  case False
  then show ?thesis by (cases topic) (auto simp: generate_def)
qed

text \<open>
  C8: with no API key configured, every adapter call throws the missing-credential error
  at call time, with no request posted upstream and the status object untouched; a
  generate request with a proper topic is answered with status 500 and that message,
  again with no upstream request; and the health query, after any generate request on
  the status object of startup, still answers, with status "unconfigured" and
  apiConfigured false.
\<close>

theorem missing_key_fails_health_answers:
  assumes "MEGALLM_API_KEY cfg = []"
  shows "callMegaLLM cfg pf now messages maxTokens st = (st, [], Inl (Error missing_key_message))
       \<and> (trim s \<noteq> [] \<longrightarrow>
            generate cfg pf uuid t1 t2 t3 (JStr s) st =
              (st, [], Response 500 (JObj [(lit ''error'', JStr missing_key_message)])))
       \<and> health cfg (fst (generate cfg pf uuid t1 t2 t3 topic (startup_status cfg))) =
            JObj [(lit ''status'', JStr (lit ''unconfigured'')),
                  (lit ''model'', JStr (MEGALLM_MODEL cfg)),
                  (lit ''apiConfigured'', JBool False),
                  (lit ''lastCheck'', JNull),
                  (lit ''healthy'', JBool False),
                  (lit ''message'',
                   JStr (lit ''API key not configured. Set MEGALLM_API_KEY environment variable.''))]"
  using assms
  by (simp add: callMegaLLM_no_key generate_no_key generate_status_no_key health_def
      startup_status_def)

theorem missing_key_fails_health_answers_witness:
  "MEGALLM_API_KEY unconfigured = []
   \<and> trim (lit ''Renewable Energy'') \<noteq> []
   \<and> generate unconfigured example_platform (lit ''u'') (lit ''t1'') (lit ''t2'') (lit ''t3'')
        (JStr (lit ''Renewable Energy'')) (startup_status unconfigured) =
      (startup_status unconfigured, [],
       Response 500 (JObj [(lit ''error'', JStr missing_key_message)]))
   \<and> own_prop (health unconfigured (fst (generate unconfigured example_platform (lit ''u'')
        (lit ''t1'') (lit ''t2'') (lit ''t3'') (JStr (lit ''Renewable Energy''))
        (startup_status unconfigured)))) (lit ''apiConfigured'') = JBool False"
proof -
  have k: "MEGALLM_API_KEY unconfigured = []"
    by (simp add: unconfigured_def)
  have t: "trim (lit ''Renewable Energy'') \<noteq> []"
    by (simp add: trim_def lit_def js_whitespace_def)
  note inst = missing_key_fails_health_answers[OF k, of example_platform "lit ''t1''" "[]" 8000
      "startup_status unconfigured" "lit ''Renewable Energy''" "lit ''u''" "lit ''t1''"
      "lit ''t2''" "lit ''t3''" "JStr (lit ''Renewable Energy'')"]
  from inst have h: "own_prop (health unconfigured (fst (generate unconfigured example_platform
      (lit ''u'') (lit ''t1'') (lit ''t2'') (lit ''t3'') (JStr (lit ''Renewable Energy''))
      (startup_status unconfigured)))) (lit ''apiConfigured'') = JBool False"
    by (simp add: lit_eq_iff)
  show ?thesis using k t inst h by simp
qed

text \<open>
  C9: the request posted and the value returned or the error thrown by an adapter call
  are the same for any two status objects it is started with: the call writes the flag
  and never reads it.
\<close>

theorem health_flag_never_read:
  "snd (callMegaLLM cfg pf now messages maxTokens st) =
   snd (callMegaLLM cfg pf now messages maxTokens st')"
  by (simp add: callMegaLLM_def Let_def split: option.splits sum.splits)

lemma requests_of_callMegaLLM:
  assumes "MEGALLM_API_KEY cfg \<noteq> []" and "url_hostname pf (MEGALLM_API_URL cfg) = Some hostname"
  shows "fst (snd (callMegaLLM cfg pf now messages maxTokens st)) =
         [build_request cfg (isAnthropicFormat hostname) messages maxTokens]"
  using assms by (simp add: callMegaLLM_def Let_def split: sum.splits)

lemma build_request_A:
  "format_A cfg (build_request cfg True messages maxTokens)"
  "\<not> format_B cfg messages (build_request cfg True messages maxTokens)"
  by (simp_all add: format_A_def format_B_def build_request_def Let_def lit_eq_iff)

lemma build_request_B:
  "format_B cfg messages (build_request cfg False messages maxTokens)"
  "\<not> format_A cfg (build_request cfg False messages maxTokens)"
  by (simp_all add: format_A_def format_B_def build_request_def lit_eq_iff)

text \<open>
  C3: when a key is configured and the endpoint URL parses, the adapter posts exactly one
  request, and for every message sequence and token budget that request is in format A
  (and not in format B) when the hostname is api.anthropic.com, and in format B (and not
  in format A) for every other hostname.
\<close>

theorem format_selected_by_hostname:
  assumes "MEGALLM_API_KEY cfg \<noteq> []" and "url_hostname pf (MEGALLM_API_URL cfg) = Some hostname"
  shows "\<exists>r. fst (snd (callMegaLLM cfg pf now messages maxTokens st)) = [r]
           \<and> (if hostname = lit ''api.anthropic.com''
                then format_A cfg r \<and> \<not> format_B cfg messages r
                else format_B cfg messages r \<and> \<not> format_A cfg r)"
  using requests_of_callMegaLLM[OF assms, of now messages maxTokens st]
  by (simp add: isAnthropicFormat_def build_request_A build_request_B)

theorem format_selected_by_hostname_witness:
  "MEGALLM_API_KEY example_config \<noteq> []
   \<and> url_hostname example_platform (MEGALLM_API_URL example_config) = Some (lit ''api.anthropic.com'')
   \<and> format_A example_config
        (hd (fst (snd (callMegaLLM example_config example_platform (lit ''t'')
           [\<lparr>role = lit ''user'', content = lit ''hello''\<rparr>] 8000
           (startup_status example_config)))))"
proof -
  have k: "MEGALLM_API_KEY example_config \<noteq> []"
    by (simp add: example_config_def lit_Nil_iff)
  have h: "url_hostname example_platform (MEGALLM_API_URL example_config)
           = Some (lit ''api.anthropic.com'')"
    by (simp add: example_config_def example_platform_def)
  from format_selected_by_hostname[OF k h, of "lit ''t''"
      "[\<lparr>role = lit ''user'', content = lit ''hello''\<rparr>]" 8000 "startup_status example_config"]
  obtain r where "fst (snd (callMegaLLM example_config example_platform (lit ''t'')
           [\<lparr>role = lit ''user'', content = lit ''hello''\<rparr>] 8000
           (startup_status example_config))) = [r]" and "format_A example_config r"
    by auto
  then show ?thesis using k h by simp
qed








section \<open>The error messages\<close>

lemma catch_message_by_class:
  "catch_message pf e =
     (case error_class e of
        AuthenticationRejected \<Rightarrow>
          lit ''Invalid API key. Please check your MEGALLM_API_KEY environment variable.''
      | RateLimited \<Rightarrow> lit ''API rate limit exceeded. Please wait a moment and try again.''
      | UpstreamUnavailable \<Rightarrow>
          lit ''AI service is temporarily unavailable. Please try again later.''
      | Timeout \<Rightarrow>
          lit ''Request timed out. The AI service is taking too long to respond. Please try again.''
      | Unreachable \<Rightarrow>
          lit ''Cannot connect to AI service. Please check your internet connection.''
      | Generic \<Rightarrow>
          (if truthy (opt_prop (opt_prop (errorData e) (lit ''error'')) (lit ''message'')) then
             lit ''AI Service Error: ''
               @ to_string pf (opt_prop (opt_prop (errorData e) (lit ''error'')) (lit ''message''))
           else lit ''Failed to generate presentation. Please try again.''))"
  by (simp add: catch_message_def error_class_def)

lemma service_error_neq:
  assumes "take (length ''AI Service Error: '') m \<noteq> ''AI Service Error: ''"
  shows "lit ''AI Service Error: '' @ x \<noteq> lit m" and "lit m \<noteq> lit ''AI Service Error: '' @ x"
  using assms lit_append_eq_lit[of "''AI Service Error: ''" x m] by auto

lemma messages_differ_by_class:
  "error_class e1 \<noteq> error_class e2 \<Longrightarrow> catch_message pf e1 \<noteq> catch_message pf e2"
  by (cases "error_class e1"; cases "error_class e2";
      simp add: catch_message_by_class lit_eq_iff service_error_neq)

lemma catch_message_not_missing_key: "catch_message pf e \<noteq> missing_key_message"
  by (cases "error_class e";
      simp add: catch_message_by_class missing_key_message_def lit_eq_iff service_error_neq)

lemma class_of_5xx:
  "statusCode e = Some n \<Longrightarrow> 500 \<le> n \<Longrightarrow> error_class e \<noteq> RateLimited"
  by (auto simp: error_class_def)

lemma class_of_429: "statusCode e = Some 429 \<Longrightarrow> error_class e = RateLimited"
  by (simp add: error_class_def)

text \<open>
  C4, as the code has it: the status 504 is a 5xx status, and its message is the
  generic one that a malformed upstream body also gets, not the one of an unavailable
  upstream.
\<close>

theorem status_504_gets_generic_message:
  "statusCode (Axios \<lparr>err_response = Some (504, JUndefined), err_code = None\<rparr>) = Some 504
   \<and> catch_message example_platform (Axios \<lparr>err_response = Some (504, JUndefined), err_code = None\<rparr>)
       = catch_message example_platform (Native TypeError)
   \<and> catch_message example_platform (Axios \<lparr>err_response = Some (504, JUndefined), err_code = None\<rparr>)
       \<noteq> catch_message example_platform (Axios \<lparr>err_response = Some (503, JUndefined), err_code = None\<rparr>)"
  by (simp add: catch_message_def opt_prop_def lit_eq_iff)

text \<open>
  C4, amended: the statuses of the upstream-unavailable class are 500, 502 and 503.
  Errors of two different classes (authentication rejected: 401; rate limited: 429;
  upstream unavailable: 500, 502, 503; timeout; unreachable; generic: everything else)
  get different messages, each of them differs from the missing-credential message, and
  the message of a 429 differs from the message of every status from 500 to 599.
\<close>

theorem error_classes_have_distinct_messages:
  "(error_class e1 \<noteq> error_class e2 \<longrightarrow> catch_message pf e1 \<noteq> catch_message pf e2)
   \<and> catch_message pf e1 \<noteq> missing_key_message
   \<and> (statusCode e1 = Some 429 \<and> statusCode e2 = Some n \<and> 500 \<le> n \<and> n < 600 \<longrightarrow>
        catch_message pf e1 \<noteq> catch_message pf e2)"
  using messages_differ_by_class[of e1 e2 pf] catch_message_not_missing_key[of pf e1]
    class_of_5xx[of e2 n] class_of_429[of e1]
  by auto

theorem error_classes_have_distinct_messages_witness:
  "error_class (Axios \<lparr>err_response = Some (429, JUndefined), err_code = None\<rparr>)
     \<noteq> error_class (Axios \<lparr>err_response = Some (504, JUndefined), err_code = None\<rparr>)
   \<and> statusCode (Axios \<lparr>err_response = Some (429, JUndefined), err_code = None\<rparr>) = Some 429
   \<and> statusCode (Axios \<lparr>err_response = Some (504, JUndefined), err_code = None\<rparr>) = Some 504
   \<and> (500::nat) \<le> 504 \<and> (504::nat) < 600
   \<and> catch_message example_platform (Axios \<lparr>err_response = Some (429, JUndefined), err_code = None\<rparr>)
       \<noteq> catch_message example_platform (Axios \<lparr>err_response = Some (504, JUndefined), err_code = None\<rparr>)"
proof -
  let ?e1 = "Axios \<lparr>err_response = Some (429, JUndefined), err_code = None\<rparr>"
  let ?e2 = "Axios \<lparr>err_response = Some (504, JUndefined), err_code = None\<rparr>"
  have c: "error_class ?e1 \<noteq> error_class ?e2"
    by (simp add: error_class_def)
  have s: "statusCode ?e1 = Some 429" "statusCode ?e2 = Some 504"
    by simp_all
  from error_classes_have_distinct_messages[of ?e1 ?e2 example_platform 504] c s
  have "catch_message example_platform ?e1 \<noteq> catch_message example_platform ?e2"
    by simp
  then show ?thesis using c s by simp
qed

section \<open>The topic check\<close>

lemma trim_all_whitespace: "all_whitespace s \<Longrightarrow> trim s = []"
proof -
  assume "all_whitespace s"
  then have "\<forall>c\<in>set s. js_whitespace c"
    by (simp add: all_whitespace_def list_all_iff)
  then have d: "dropWhile js_whitespace s = []"
    by (induction s) auto
  show ?thesis unfolding trim_def d by simp
qed

text \<open>
  C7: a generate request whose topic is absent (\<open>undefined\<close>), \<open>null\<close>, the empty
  string or a string of whitespace only is answered with status 400 and the error
  "Please provide a topic"; no request is posted upstream and the status object is left
  as it was.
\<close>

theorem blank_topic_rejected:
  assumes "topic = JUndefined \<or> topic = JNull \<or> (\<exists>s. topic = JStr s \<and> all_whitespace s)"
  shows "generate cfg pf uuid t1 t2 t3 topic st =
         (st, [], Response 400 (JObj [(lit ''error'', JStr (lit ''Please provide a topic''))]))"
  using assms by (auto simp: generate_def trim_all_whitespace)

theorem blank_topic_rejected_witness:
  "all_whitespace [0x20, 0x2003, 0x9]
   \<and> generate example_config example_platform (lit ''u'') (lit ''t1'') (lit ''t2'') (lit ''t3'')
        (JStr [0x20, 0x2003, 0x9]) (startup_status example_config) =
      (startup_status example_config, [],
       Response 400 (JObj [(lit ''error'', JStr (lit ''Please provide a topic''))]))"
proof -
  have w: "all_whitespace [0x20, 0x2003, 0x9]"
    by (simp add: all_whitespace_def js_whitespace_def)
  then have "JStr [0x20, 0x2003, 0x9] = JUndefined \<or> JStr [0x20, 0x2003, 0x9] = JNull
      \<or> (\<exists>s. JStr [0x20, 0x2003, 0x9] = JStr s \<and> all_whitespace s)"
    by simp
  from blank_topic_rejected[OF this] w show ?thesis by simp
qed

section \<open>Fence stripping\<close>

lemma rev_dropWhile_split: "d = rev (dropWhile P (rev d)) @ rev (takeWhile P (rev d))"
proof -
  have "rev d = takeWhile P (rev d) @ dropWhile P (rev d)" by simp
  then have "rev (rev d) = rev (takeWhile P (rev d) @ dropWhile P (rev d))"
    by (rule arg_cong)
  then show ?thesis by (simp only: rev_rev_ident rev_append)
qed

lemma trim_decomp:
  "\<exists>a b. s = a @ trim s @ b \<and> (\<forall>c\<in>set a. js_whitespace c) \<and> (\<forall>c\<in>set b. js_whitespace c)"
proof -
  let ?d = "dropWhile js_whitespace s"
  have s: "s = takeWhile js_whitespace s @ ?d" by simp
  have d: "?d = trim s @ rev (takeWhile js_whitespace (rev ?d))"
    unfolding trim_def by (rule rev_dropWhile_split)
  have a: "\<forall>c\<in>set (takeWhile js_whitespace s). js_whitespace c"
    by (auto dest: set_takeWhileD)
  have b: "\<forall>c\<in>set (rev (takeWhile js_whitespace (rev ?d))). js_whitespace c"
    by (auto dest: set_takeWhileD)
  from s d have "s = takeWhile js_whitespace s @ trim s @ rev (takeWhile js_whitespace (rev ?d))"
    by metis
  with a b show ?thesis by blast
qed

lemma dropWhile_all: "\<forall>c\<in>set a. P c \<Longrightarrow> dropWhile P (a @ r) = dropWhile P r"
  by (induction a) auto

lemma dropWhile_stop: "u \<noteq> [] \<Longrightarrow> \<not> P (hd u) \<Longrightarrow> dropWhile P (u @ b) = u @ b"
  by (cases u) auto

lemma trim_core:
  assumes "u \<noteq> []" and "\<not> js_whitespace (hd u)" and "\<not> js_whitespace (last u)"
    and a: "\<forall>c\<in>set a. js_whitespace c" and b: "\<forall>c\<in>set b. js_whitespace c"
  shows "trim (a @ u @ b) = u"
proof -
  have 1: "dropWhile js_whitespace (a @ u @ b) = u @ b"
    using dropWhile_all[OF a, of "u @ b"] dropWhile_stop[of u js_whitespace b] assms(1,2) by simp
  have rb: "\<forall>c\<in>set (rev b). js_whitespace c" using b by simp
  have ru: "rev u \<noteq> []" "\<not> js_whitespace (hd (rev u))" using assms(1,3) by (simp_all add: hd_rev)
  have 2: "dropWhile js_whitespace (rev (u @ b)) = rev u"
    using dropWhile_all[OF rb, of "rev u"] dropWhile_stop[of "rev u" js_whitespace "[]"] ru by simp
  show ?thesis unfolding trim_def 1 2 by simp
qed

lemma trim_Nil_iff: "trim s = [] \<longleftrightarrow> dropWhile js_whitespace s = []"
proof
  assume "trim s = []"
  then have e: "dropWhile js_whitespace (rev (dropWhile js_whitespace s)) = []" unfolding trim_def by simp
  show "dropWhile js_whitespace s = []"
  proof (rule ccontr)
    assume ne: "dropWhile js_whitespace s \<noteq> []"
    then have "\<not> js_whitespace (hd (dropWhile js_whitespace s))" by (rule hd_dropWhile)
    moreover have "hd (dropWhile js_whitespace s) \<in> set (rev (dropWhile js_whitespace s))" using ne by simp
    moreover from e have "\<forall>c\<in>set (rev (dropWhile js_whitespace s)). js_whitespace c"
      by (simp only: dropWhile_eq_Nil_conv)
    ultimately show False by blast
  qed
next
  assume d: "dropWhile js_whitespace s = []"
  show "trim s = []" unfolding trim_def d by simp
qed

lemma trim_ends:
  assumes "trim s \<noteq> []"
  shows "\<not> js_whitespace (hd (trim s))" and "\<not> js_whitespace (last (trim s))"
proof -
  let ?d = "dropWhile js_whitespace s"
  let ?e = "dropWhile js_whitespace (rev ?d)"
  have t: "trim s = rev ?e" by (simp add: trim_def)
  with assms have e: "?e \<noteq> []" by simp
  then have "\<not> js_whitespace (hd ?e)" by (rule hd_dropWhile)
  moreover have "last (trim s) = hd ?e" using e by (simp add: t last_rev)
  ultimately show "\<not> js_whitespace (last (trim s))" by simp
  have d_ne: "?d \<noteq> []" using assms trim_Nil_iff[of s] by blast
  then have nd: "\<not> js_whitespace (hd ?d)" by (rule hd_dropWhile)
  have "?d = trim s @ rev (takeWhile js_whitespace (rev ?d))"
    unfolding trim_def by (rule rev_dropWhile_split)
  then have "hd ?d = hd (trim s @ rev (takeWhile js_whitespace (rev ?d)))" by (rule arg_cong)
  then have "hd ?d = hd (trim s)" using assms by simp
  with nd show "\<not> js_whitespace (hd (trim s))" by simp
qed

lemma trim_trim: "trim (trim s) = trim s"
proof (cases "trim s = []")
  case True
  show ?thesis unfolding True by (simp add: trim_def)
next
  case False
  from trim_core[OF False trim_ends[OF False], of "[]" "[]"] show ?thesis by simp
qed

lemma startsWith_nonempty:
  "startsWith s p \<Longrightarrow> p \<noteq> [] \<Longrightarrow> s \<noteq> [] \<and> hd s = hd p"
  unfolding startsWith_def by (cases s; cases p) auto

lemma endsWith_nonempty:
  assumes "endsWith s p" and "p \<noteq> []"
  shows "s \<noteq> [] \<and> last s = last p"
proof -
  from assms have p: "p = drop (length s - length p) s" by (simp add: endsWith_def)
  with assms(2) have s: "s \<noteq> []" by auto
  have "s = take (length s - length p) s @ p" using p by (metis append_take_drop_id)
  then have "last s = last (take (length s - length p) s @ p)" by simp
  also have "\<dots> = last p" using assms(2) by simp
  finally show ?thesis using s by simp
qed

lemma startsWith_prefix: "startsWith (p @ x) p"
  by (simp add: startsWith_def)

lemma startsWith_common: "startsWith (p @ x) (p @ q) \<longleftrightarrow> startsWith x q"
  by (simp add: startsWith_def)

lemma endsWith_suffix: "endsWith (x @ p) p"
  by (simp add: endsWith_def)

lemma fence_chars:
  "hd (lit ''```'') = 0x60" "last (lit ''```'') = 0x60" "hd (lit ''json'') = 0x6A"
  "lit ''```json'' = lit ''```'' @ lit ''json''" "length (lit ''```'') = 3"
  "length (lit ''```json'') = 7" "\<not> js_whitespace 0x60" "\<not> js_whitespace 0x6A"
  by (simp_all add: lit_def js_whitespace_def)

lemma json_first_char_plain:
  "json_first_char c \<Longrightarrow> c \<noteq> 0x60 \<and> c \<noteq> 0x6A \<and> \<not> js_whitespace c"
  by (auto simp: json_first_char_def lit_def js_whitespace_def)

lemma json_last_char_plain: "json_last_char c \<Longrightarrow> c \<noteq> 0x60 \<and> \<not> js_whitespace c"
  by (auto simp: json_last_char_def lit_def js_whitespace_def)

lemma strip_unfenced:
  assumes "\<not> startsWith (trim s) (lit ''```'')" and "\<not> endsWith (trim s) (lit ''```'')"
  shows "strip_code_fence s = trim s"
proof -
  have "\<not> startsWith (trim s) (lit ''```json'')"
  proof
    assume "startsWith (trim s) (lit ''```json'')"
    then have "take 7 (trim s) = lit ''```json''"
      by (simp add: startsWith_def fence_chars(6))
    then have "take 3 (take 7 (trim s)) = take 3 (lit ''```json'')" by simp
    then have "take 3 (trim s) = lit ''```''" by (simp add: lit_def)
    with assms(1) show False by (simp add: startsWith_def fence_chars(5))
  qed
  with assms show ?thesis by (simp add: strip_code_fence_def Let_def trim_trim)
qed

lemma strip_json_shaped:
  assumes "json_shaped t"
  shows "strip_code_fence t = trim t"
proof (rule strip_unfenced)
  from assms have ne: "trim t \<noteq> []" and f: "json_first_char (hd (trim t))"
    and l: "json_last_char (last (trim t))"
    by (simp_all add: json_shaped_def)
  show "\<not> startsWith (trim t) (lit ''```'')"
    using startsWith_nonempty[of "trim t" "lit ''```''"] json_first_char_plain[OF f]
    by (auto simp: fence_chars lit_Nil_iff)
  show "\<not> endsWith (trim t) (lit ''```'')"
    using endsWith_nonempty[of "trim t" "lit ''```''"] json_last_char_plain[OF l]
    by (auto simp: fence_chars lit_Nil_iff)
qed

lemma strip_fenced:
  assumes t: "json_shaped t"
    and w: "all_whitespace w1" "all_whitespace w2" "all_whitespace w3" "all_whitespace w4"
    and fence: "fence = lit ''```json'' \<or> fence = lit ''```''"
  shows "strip_code_fence (w1 @ fence @ w2 @ t @ w3 @ lit ''```'' @ w4) = trim t"
proof -
  let ?K = "lit ''```''"
  let ?u = "trim t"
  from t have ne: "?u \<noteq> []" and f: "json_first_char (hd ?u)" and l: "json_last_char (last ?u)"
    by (simp_all add: json_shaped_def)
  note fp = json_first_char_plain[OF f] and lp = json_last_char_plain[OF l]
  from trim_decomp[of t] obtain a b where
    tt: "t = a @ ?u @ b" and a: "\<forall>c\<in>set a. js_whitespace c" and b: "\<forall>c\<in>set b. js_whitespace c"
    by blast
  from w have w': "\<forall>c\<in>set w1. js_whitespace c" "\<forall>c\<in>set w2. js_whitespace c"
    "\<forall>c\<in>set w3. js_whitespace c" "\<forall>c\<in>set w4. js_whitespace c"
    by (simp_all add: all_whitespace_def list_all_iff)
  define m where "m = (w2 @ a) @ ?u @ (b @ w3)"
  have m_trim: "trim m = ?u"
    unfolding m_def using a b w' by (intro trim_core ne) (use fp lp in auto)
  have m_ne: "m \<noteq> []" using ne by (simp add: m_def)
  have m_hd: "hd (m @ ?K) \<noteq> 0x6A"
  proof (cases "w2 @ a")
    case Nil
    then have "hd (m @ ?K) = hd ?u" using ne by (simp add: m_def)
    with fp show ?thesis by simp
  next
    case (Cons c cs)
    then have "hd (m @ ?K) = c" by (simp add: m_def)
    moreover have "js_whitespace c" using Cons a w'(2)
      by (metis Un_iff list.set_intros(1) set_append)
    ultimately show ?thesis using fence_chars(8) by auto
  qed
  have fence_ends: "fence \<noteq> []" "hd fence = 0x60"
    using fence by (auto simp: lit_def)
  have whole: "w1 @ fence @ w2 @ t @ w3 @ ?K @ w4 = w1 @ (fence @ m @ ?K) @ w4"
    by (subst tt) (simp add: m_def)
  have "trim (w1 @ (fence @ m @ ?K) @ w4) = fence @ m @ ?K"
  proof (rule trim_core)
    show "fence @ m @ ?K \<noteq> []" using fence_ends by simp
    show "\<not> js_whitespace (hd (fence @ m @ ?K))"
      using fence_ends fence_chars(7) by simp
    have "last (fence @ m @ ?K) = last ?K" by (simp add: lit_Nil_iff)
    then show "\<not> js_whitespace (last (fence @ m @ ?K))"
      using fence_chars(2,7) by simp
  qed (use w' in auto)
  then have tr: "trim (w1 @ fence @ w2 @ t @ w3 @ ?K @ w4) = fence @ m @ ?K"
    by (simp only: whole)
  have after_prefix:
    "(if startsWith (fence @ m @ ?K) (lit ''```json'') then drop 7 (fence @ m @ ?K)
      else if startsWith (fence @ m @ ?K) ?K then drop 3 (fence @ m @ ?K)
      else fence @ m @ ?K) = m @ ?K"
  proof -
    from fence show ?thesis
    proof
      assume "fence = lit ''```json''"
      then show ?thesis
        using startsWith_prefix[of "lit ''```json''" "m @ ?K"]
        by (simp add: fence_chars(6))
    next
      assume fk: "fence = ?K"
      have "\<not> startsWith (?K @ m @ ?K) (lit ''```json'')"
      proof
        assume "startsWith (?K @ m @ ?K) (lit ''```json'')"
        then have "startsWith (m @ ?K) (lit ''json'')"
          by (simp only: fence_chars(4) startsWith_common)
        from startsWith_nonempty[OF this] have "hd (m @ ?K) = 0x6A"
          by (simp add: fence_chars(3) lit_Nil_iff)
        with m_hd show False by simp
      qed
      then show ?thesis
        using fk startsWith_prefix[of ?K "m @ ?K"] by (simp add: fence_chars(5))
    qed
  qed
  have after_suffix:
    "(if endsWith (m @ ?K) ?K then take (length (m @ ?K) - 3) (m @ ?K) else m @ ?K) = m"
    using endsWith_suffix[of m ?K] by (simp add: fence_chars(5))
  show ?thesis
    unfolding strip_code_fence_def Let_def tr after_prefix after_suffix by (rule m_trim)
qed

text \<open>
  C2: let \<open>t\<close> have the shape of a JSON text, and let \<open>s\<close> be \<open>t\<close> between a leading
  fence (three backquotes, with or without "json") and a trailing fence of three
  backquotes, with any whitespace around the fences and around \<open>t\<close>. Then the text handed
  to \<open>JSON.parse\<close> for \<open>s\<close> is the one handed to it for \<open>t\<close>, namely \<open>t\<close> trimmed, so both
  parse to the same result, and stripping the stripped text again changes nothing. And
  when the trimmed \<open>s\<close> neither starts nor ends with three backquotes, the text handed
  to \<open>JSON.parse\<close> is \<open>s\<close> trimmed, and stripping it again changes nothing.
\<close>

theorem fence_stripping_exact:
  "(json_shaped t \<and> all_whitespace w1 \<and> all_whitespace w2 \<and> all_whitespace w3
      \<and> all_whitespace w4 \<and> (fence = lit ''```json'' \<or> fence = lit ''```'') \<longrightarrow>
      strip_code_fence (w1 @ fence @ w2 @ t @ w3 @ lit ''```'' @ w4) = trim t
      \<and> strip_code_fence t = trim t
      \<and> parse_response pf (JStr (w1 @ fence @ w2 @ t @ w3 @ lit ''```'' @ w4))
          = parse_response pf (JStr t)
      \<and> strip_code_fence (strip_code_fence (w1 @ fence @ w2 @ t @ w3 @ lit ''```'' @ w4))
          = strip_code_fence (w1 @ fence @ w2 @ t @ w3 @ lit ''```'' @ w4))
   \<and> (\<not> startsWith (trim s) (lit ''```'') \<and> \<not> endsWith (trim s) (lit ''```'') \<longrightarrow>
      strip_code_fence s = trim s
      \<and> strip_code_fence (strip_code_fence s) = strip_code_fence s)"
proof (intro conjI impI)
  assume h: "json_shaped t \<and> all_whitespace w1 \<and> all_whitespace w2 \<and> all_whitespace w3
      \<and> all_whitespace w4 \<and> (fence = lit ''```json'' \<or> fence = lit ''```'')"
  then have 1: "strip_code_fence (w1 @ fence @ w2 @ t @ w3 @ lit ''```'' @ w4) = trim t"
    by (intro strip_fenced) simp_all
  from h have 2: "strip_code_fence t = trim t" by (intro strip_json_shaped) simp
  from h have sh: "json_shaped (trim t)" by (simp add: json_shaped_def trim_trim)
  show "strip_code_fence (w1 @ fence @ w2 @ t @ w3 @ lit ''```'' @ w4) = trim t" by (rule 1)
  show "strip_code_fence t = trim t" by (rule 2)
  show "parse_response pf (JStr (w1 @ fence @ w2 @ t @ w3 @ lit ''```'' @ w4))
          = parse_response pf (JStr t)"
    by (simp add: parse_response_def 1 2)
  show "strip_code_fence (strip_code_fence (w1 @ fence @ w2 @ t @ w3 @ lit ''```'' @ w4))
          = strip_code_fence (w1 @ fence @ w2 @ t @ w3 @ lit ''```'' @ w4)"
    using strip_json_shaped[OF sh] by (simp add: 1 trim_trim)
next
  assume h: "\<not> startsWith (trim s) (lit ''```'') \<and> \<not> endsWith (trim s) (lit ''```'')"
  then show 3: "strip_code_fence s = trim s" by (intro strip_unfenced) simp_all
  from h have "strip_code_fence (trim s) = trim (trim s)"
    by (intro strip_unfenced) (simp_all add: trim_trim)
  then show "strip_code_fence (strip_code_fence s) = strip_code_fence s"
    by (simp add: 3 trim_trim)
qed

theorem fence_stripping_exact_witness:
  "json_shaped (lit ''{\"title\":\"T\",\"subtitle\":\"S\",\"slides\":[],\"theme\":{}}'')
   \<and> all_whitespace [] \<and> all_whitespace [0xA]
   \<and> strip_code_fence (lit ''```json'' @ [0xA]
         @ lit ''{\"title\":\"T\",\"subtitle\":\"S\",\"slides\":[],\"theme\":{}}'' @ [0xA] @ lit ''```'')
       = lit ''{\"title\":\"T\",\"subtitle\":\"S\",\"slides\":[],\"theme\":{}}''
   \<and> parse_response example_platform (JStr (lit ''```json'' @ [0xA]
         @ lit ''{\"title\":\"T\",\"subtitle\":\"S\",\"slides\":[],\"theme\":{}}'' @ [0xA] @ lit ''```''))
       = parse_response example_platform
           (JStr (lit ''{\"title\":\"T\",\"subtitle\":\"S\",\"slides\":[],\"theme\":{}}''))"
proof -
  let ?t = "lit ''{\"title\":\"T\",\"subtitle\":\"S\",\"slides\":[],\"theme\":{}}''"
  have ends: "?t \<noteq> []" "hd ?t = 0x7B" "last ?t = 0x7D"
    by (simp_all add: lit_def)
  have nw: "\<not> js_whitespace 0x7B" "\<not> js_whitespace 0x7D"
    by (simp_all add: js_whitespace_def)
  have tt: "trim ?t = ?t"
    using trim_core[of ?t "[]" "[]"] ends nw by simp
  have fl: "json_first_char 0x7B" "json_last_char 0x7D"
    by (simp_all add: json_first_char_def json_last_char_def lit_def)
  have sh: "json_shaped ?t"
    unfolding json_shaped_def tt using ends fl by simp
  have w: "all_whitespace []" "all_whitespace [0xA]"
    by (simp_all add: all_whitespace_def js_whitespace_def)
  from fence_stripping_exact[of ?t "[]" "[0xA]" "[0xA]" "[]" "lit ''```json''" example_platform]
    sh w
  have "strip_code_fence ([] @ lit ''```json'' @ [0xA] @ ?t @ [0xA] @ lit ''```'' @ []) = trim ?t"
    and "parse_response example_platform
           (JStr ([] @ lit ''```json'' @ [0xA] @ ?t @ [0xA] @ lit ''```'' @ []))
         = parse_response example_platform (JStr ?t)"
    by blast+
  then show ?thesis using sh w by (simp only: tt append_Nil append_Nil2 simp_thms)
qed

section \<open>The merge\<close>

lemma name_keys:
  "index_of_key (lit ''slides'') = None" "lit ''slides'' \<noteq> lit ''length''"
  "index_of_key (lit ''keyTakeaways'') = None" "lit ''keyTakeaways'' \<noteq> lit ''length''"
  by (simp_all add: index_of_key_def lit_def is_digit_def)

lemma slides_array_object:
  "own_prop p (lit ''slides'') = JArr xs \<Longrightarrow>
   \<exists>kvs. p = JObj kvs \<and> map_of kvs (lit ''slides'') = Some (JArr xs)"
  by (cases p) (auto simp: name_keys split: option.splits)

lemma slide_kept_refl: "slide_kept x x"
  by (simp add: slide_kept_def)

lemma slide_kept_trans: "slide_kept x y \<Longrightarrow> slide_kept y z \<Longrightarrow> slide_kept x z"
  unfolding slide_kept_def by auto

lemma slide_kept_put:
  "f = lit ''enhancedNotes'' \<or> f = lit ''transition'' \<Longrightarrow> slide_kept x (put_prop x f v)"
  by (cases x) (auto simp: slide_kept_def update_conv')

lemma truthy_put: "truthy (put_prop x f v) = truthy x"
  by (cases x) auto

lemma slide_kept_truthy: "slide_kept x y \<Longrightarrow> truthy y = truthy x"
  unfolding slide_kept_def by auto

lemma slides_kept_refl: "slides_kept es xs xs"
  by (simp add: slides_kept_def slide_kept_refl)

lemma slides_kept_mono:
  assumes "slides_kept es xs xs'" and "set es \<subseteq> set es'"
  shows "slides_kept es' xs xs'"
  unfolding slides_kept_def
proof (intro conjI allI impI)
  show "length xs' = length xs" using assms(1) by (simp add: slides_kept_def)
next
  fix i assume "i < length xs"
  then show "slide_kept (xs ! i) (xs' ! i)" using assms(1) by (simp add: slides_kept_def)
next
  fix i assume "i < length xs" "xs' ! i \<noteq> xs ! i"
  then show "truthy (xs ! i)" using assms(1) by (simp add: slides_kept_def)
next
  fix i assume "i < length xs" "xs' ! i \<noteq> xs ! i"
  then have "\<exists>e\<in>set es. key_index (own_prop e (lit ''slideIndex'')) = Some i"
    using assms(1) by (simp add: slides_kept_def)
  then show "\<exists>e\<in>set es'. key_index (own_prop e (lit ''slideIndex'')) = Some i"
    using assms(2) by blast
qed

lemma slides_kept_trans:
  assumes 1: "slides_kept es xs ys" and 2: "slides_kept es ys zs"
  shows "slides_kept es xs zs"
  unfolding slides_kept_def
proof (intro conjI allI impI)
  show len: "length zs = length xs" using 1 2 by (simp add: slides_kept_def)
next
  fix i assume i: "i < length xs"
  then have j: "i < length ys" using 1 by (simp add: slides_kept_def)
  show "slide_kept (xs ! i) (zs ! i)"
    using 1 2 i j by (auto simp: slides_kept_def intro: slide_kept_trans)
next
  fix i assume i: "i < length xs" and d: "zs ! i \<noteq> xs ! i"
  then have j: "i < length ys" using 1 by (simp add: slides_kept_def)
  have k: "slide_kept (xs ! i) (ys ! i)" using 1 i by (simp add: slides_kept_def)
  show "truthy (xs ! i)"
  proof (cases "ys ! i = xs ! i")
    case True
    with d have "zs ! i \<noteq> ys ! i" by simp
    then have "truthy (ys ! i)" using 2 j by (simp add: slides_kept_def)
    with True show ?thesis by simp
  next
    case False
    then show ?thesis using 1 i by (simp add: slides_kept_def)
  qed
next
  fix i assume i: "i < length xs" and d: "zs ! i \<noteq> xs ! i"
  then have j: "i < length ys" using 1 by (simp add: slides_kept_def)
  show "\<exists>e\<in>set es. key_index (own_prop e (lit ''slideIndex'')) = Some i"
  proof (cases "ys ! i = xs ! i")
    case True
    with d have "zs ! i \<noteq> ys ! i" by simp
    then show ?thesis using 2 j by (simp add: slides_kept_def)
  next
    case False
    then show ?thesis using 1 i by (simp add: slides_kept_def)
  qed
qed

lemma slides_kept_update:
  assumes "key_index (own_prop e (lit ''slideIndex'')) = Some i" and "truthy (xs ! i)"
    and "slide_kept (xs ! i) y"
  shows "slides_kept [e] xs (xs[i := y])"
  unfolding slides_kept_def
proof (intro conjI allI impI)
  show "length (xs[i := y]) = length xs" by simp
next
  fix j assume "j < length xs"
  then show "slide_kept (xs ! j) (xs[i := y] ! j)"
    using assms(3) by (cases "j = i") (simp_all add: slide_kept_refl)
next
  fix j assume "j < length xs" "xs[i := y] ! j \<noteq> xs ! j"
  then have "j = i" by (cases "j = i") simp_all
  then show "truthy (xs ! j)" using assms(2) by simp
next
  fix j assume "j < length xs" "xs[i := y] ! j \<noteq> xs ! j"
  then have "j = i" by (cases "j = i") simp_all
  then show "\<exists>e\<in>set [e]. key_index (own_prop e (lit ''slideIndex'')) = Some j"
    using assms(1) by simp
qed

lemma slides_frame_refl: "slides_frame es p p"
  by (simp add: slides_frame_def slides_kept_refl)

lemma slides_frame_mono:
  assumes "slides_frame es p p'" and "set es \<subseteq> set es'"
  shows "slides_frame es' p p'"
  unfolding slides_frame_def
proof (intro conjI allI impI)
  fix xs assume "own_prop p (lit ''slides'') = JArr xs"
  then obtain xs' where "own_prop p' (lit ''slides'') = JArr xs'" "slides_kept es xs xs'"
    using assms(1) unfolding slides_frame_def by blast
  then show "\<exists>xs'. own_prop p' (lit ''slides'') = JArr xs' \<and> slides_kept es' xs xs'"
    using slides_kept_mono[OF _ assms(2)] by blast
qed (use assms(1) in \<open>simp_all add: slides_frame_def\<close>)

lemma slides_frame_trans:
  assumes 1: "slides_frame es p q" and 2: "slides_frame es q r"
  shows "slides_frame es p r"
  unfolding slides_frame_def
proof (intro conjI allI impI)
  show "nullish r = nullish p" using 1 2 by (simp add: slides_frame_def)
next
  fix k :: jstring assume "k \<noteq> lit ''slides''"
  then show "own_prop r k = own_prop p k" using 1 2 by (simp add: slides_frame_def)
next
  fix xs assume "own_prop p (lit ''slides'') = JArr xs"
  then obtain ys where ys: "own_prop q (lit ''slides'') = JArr ys" "slides_kept es xs ys"
    using 1 unfolding slides_frame_def by blast
  then obtain zs where zs: "own_prop r (lit ''slides'') = JArr zs" "slides_kept es ys zs"
    using 2 unfolding slides_frame_def by blast
  show "\<exists>xs'. own_prop r (lit ''slides'') = JArr xs' \<and> slides_kept es xs xs'"
    using ys zs slides_kept_trans by blast
next
  assume n: "\<forall>xs. own_prop p (lit ''slides'') \<noteq> JArr xs"
  then have q: "own_prop q (lit ''slides'') = own_prop p (lit ''slides'')"
    using 1 by (simp add: slides_frame_def)
  with n have "\<forall>xs. own_prop q (lit ''slides'') \<noteq> JArr xs" by simp
  then have "own_prop r (lit ''slides'') = own_prop q (lit ''slides'')"
    using 2 by (simp add: slides_frame_def)
  with q show "own_prop r (lit ''slides'') = own_prop p (lit ''slides'')" by simp
qed


lemma set_slide_field_props:
  assumes "own_prop p (lit ''slides'') = JArr xs"
  shows "own_prop (set_slide_field p i f v) (lit ''slides'') = JArr (xs[i := put_prop (xs ! i) f v])"
    and "k \<noteq> lit ''slides'' \<Longrightarrow> own_prop (set_slide_field p i f v) k = own_prop p k"
    and "nullish (set_slide_field p i f v) = nullish p"
proof -
  from slides_array_object[OF assms] obtain kvs where
    p: "p = JObj kvs" and m: "map_of kvs (lit ''slides'') = Some (JArr xs)" by blast
  have s: "set_slide_field p i f v =
           JObj (AList.update (lit ''slides'') (JArr (xs[i := put_prop (xs ! i) f v])) kvs)"
    by (simp add: set_slide_field_def p m)
  show "own_prop (set_slide_field p i f v) (lit ''slides'') = JArr (xs[i := put_prop (xs ! i) f v])"
    by (simp add: s update_conv')
  show "k \<noteq> lit ''slides'' \<Longrightarrow> own_prop (set_slide_field p i f v) k = own_prop p k"
    unfolding s by (simp add: p update_conv')
  show "nullish (set_slide_field p i f v) = nullish p"
    unfolding s by (simp add: p)
qed

lemma set_slide_field_frame:
  assumes sl: "own_prop p (lit ''slides'') = JArr xs" and i: "i < length xs"
    and t: "truthy (xs ! i)" and k: "key_index (own_prop e (lit ''slideIndex'')) = Some i"
    and f: "f = lit ''enhancedNotes'' \<or> f = lit ''transition''"
  shows "slides_frame [e] p (set_slide_field p i f v)"
  unfolding slides_frame_def
proof (intro conjI allI impI)
  show "nullish (set_slide_field p i f v) = nullish p"
    by (rule set_slide_field_props(3)[OF sl])
next
  fix k :: jstring assume "k \<noteq> lit ''slides''"
  then show "own_prop (set_slide_field p i f v) k = own_prop p k"
    by (rule set_slide_field_props(2)[OF sl])
next
  fix ys assume "own_prop p (lit ''slides'') = JArr ys"
  with sl have ys: "ys = xs" by simp
  have "slides_kept [e] xs (xs[i := put_prop (xs ! i) f v])"
    using k t slide_kept_put[OF f] by (rule slides_kept_update)
  then show "\<exists>xs'. own_prop (set_slide_field p i f v) (lit ''slides'') = JArr xs'
               \<and> slides_kept [e] ys xs'"
    using set_slide_field_props(1)[OF sl, of i f v] ys by simp
next
  assume "\<forall>xs. own_prop p (lit ''slides'') \<noteq> JArr xs"
  with sl show "own_prop (set_slide_field p i f v) (lit ''slides'') = own_prop p (lit ''slides'')"
    by simp
qed

lemma slide_target_Some:
  "slide_target p e = Some i \<Longrightarrow>
   \<exists>xs. own_prop p (lit ''slides'') = JArr xs \<and> i < length xs
        \<and> key_index (own_prop e (lit ''slideIndex'')) = Some i"
  by (auto simp: slide_target_def split: jsval.splits option.splits if_splits)

lemma apply_enhancement_frame:
  assumes "apply_enhancement e p = Inr p'"
  shows "slides_frame [e] p p'"
proof (cases "slide_target p e")
  case None
  with assms have "p' = p" by (simp add: apply_enhancement_def split: if_splits)
  then show ?thesis by (simp add: slides_frame_refl)
next
  case (Some i)
  from slide_target_Some[OF Some] obtain xs where
    sl: "own_prop p (lit ''slides'') = JArr xs" and i: "i < length xs"
    and k: "key_index (own_prop e (lit ''slideIndex'')) = Some i" by blast
  show ?thesis
  proof (cases "truthy (xs ! i)")
    case False
    with assms Some sl have "p' = p" by (simp add: apply_enhancement_def split: if_splits)
    then show ?thesis by (simp add: slides_frame_refl)
  next
    case True
    let ?p1 = "set_slide_field p i (lit ''enhancedNotes'') (own_prop e (lit ''enhancedNotes''))"
    let ?xs1 = "xs[i := put_prop (xs ! i) (lit ''enhancedNotes'') (own_prop e (lit ''enhancedNotes''))]"
    have p': "p' = set_slide_field ?p1 i (lit ''transition'') (own_prop e (lit ''transition''))"
      using assms Some sl True by (simp add: apply_enhancement_def split: if_splits)
    have 1: "slides_frame [e] p ?p1"
      using sl i True k by (rule set_slide_field_frame) simp
    have sl1: "own_prop ?p1 (lit ''slides'') = JArr ?xs1"
      by (rule set_slide_field_props(1)[OF sl])
    have i1: "i < length ?xs1" using i by simp
    have t1: "truthy (?xs1 ! i)" using i True by (simp add: truthy_put)
    have 2: "slides_frame [e] ?p1 p'"
      unfolding p' using sl1 i1 t1 k by (rule set_slide_field_frame) simp
    from 1 2 show ?thesis by (rule slides_frame_trans)
  qed
qed

lemma forEach_enhancement_frame:
  "forEach_enhancement es p = (err, p') \<Longrightarrow> slides_frame es p p'"
proof (induction es arbitrary: p)
  case Nil
  then show ?case by (simp add: slides_frame_refl)
next
  case (Cons e es)
  show ?case
  proof (cases "apply_enhancement e p")
    case (Inl x)
    with Cons.prems have "p' = p" by simp
    then show ?thesis by (simp add: slides_frame_refl)
  next
    case (Inr q)
    with Cons.prems have "forEach_enhancement es q = (err, p')" by simp
    then have "slides_frame es q p'" by (rule Cons.IH)
    then have 2: "slides_frame (e # es) q p'" by (rule slides_frame_mono) auto
    have "slides_frame [e] p q" using Inr by (rule apply_enhancement_frame)
    then have 1: "slides_frame (e # es) p q" by (rule slides_frame_mono) auto
    from 1 2 show ?thesis by (rule slides_frame_trans)
  qed
qed


lemma put_prop_other: "k \<noteq> f \<Longrightarrow> own_prop (put_prop q f v) k = own_prop q k"
  by (cases q) (simp_all add: update_conv')

lemma put_prop_same: "own_prop (put_prop q f v) f = v \<or> put_prop q f v = q"
  by (cases q) (simp_all add: update_conv')

lemma merge_enhancements_cases:
  assumes "merge_enhancements enhancements p = (err, p')"
  shows "\<exists>es q. slides_frame es p q
           \<and> (es = [] \<or> own_prop enhancements (lit ''enhancedSlides'') = JArr es)
           \<and> (p' = q \<or> (truthy (own_prop enhancements (lit ''keyTakeaways''))
                 \<and> p' = put_prop q (lit ''keyTakeaways'') (own_prop enhancements (lit ''keyTakeaways''))))"
proof (cases "\<exists>es. \<not> nullish enhancements \<and> own_prop enhancements (lit ''enhancedSlides'') = JArr es")
  case False
  then have "p' = p" using assms
    by (auto simp: merge_enhancements_def split: if_splits jsval.splits)
  then show ?thesis using slides_frame_refl[of "[]" p] by blast
next
  case True
  then obtain es where n: "\<not> nullish enhancements"
    and es: "own_prop enhancements (lit ''enhancedSlides'') = JArr es" by blast
  obtain r q where f: "forEach_enhancement es p = (r, q)" by (cases "forEach_enhancement es p")
  then have fr: "slides_frame es p q" by (rule forEach_enhancement_frame)
  have "p' = q \<or> (truthy (own_prop enhancements (lit ''keyTakeaways''))
          \<and> p' = put_prop q (lit ''keyTakeaways'') (own_prop enhancements (lit ''keyTakeaways'')))"
    using assms n es f
    by (auto simp: merge_enhancements_def assign_prop_def split: if_splits option.splits)
  with fr es show ?thesis by blast
qed

lemma key_index_out_of_range:
  assumes "q < 0 \<or> of_nat n \<le> q" and "key_index (JNum q) = Some i"
  shows "n \<le> i"
proof -
  from assms(2) have q: "0 \<le> q" and i: "i = nat \<lfloor>q\<rfloor>"
    by (auto split: if_splits)
  with assms(1) have "of_nat n \<le> q" by simp
  then have "int n \<le> \<lfloor>q\<rfloor>" by (simp add: le_floor_iff)
  then show ?thesis using i by simp
qed

lemma apply_enhancement_no_target:
  assumes "\<not> nullish e" and "own_prop p (lit ''slides'') = JArr xs"
    and "slide_target p e = None"
  shows "apply_enhancement e p = Inr p"
proof -
  from slides_array_object[OF assms(2)] have "\<not> nullish p" by auto
  then show ?thesis using assms by (simp add: apply_enhancement_def)
qed

lemma apply_enhancement_out_of_range:
  assumes "\<not> nullish e" and "own_prop p (lit ''slides'') = JArr xs"
    and "own_prop e (lit ''slideIndex'') = JNum q" and "q < 0 \<or> of_nat (length xs) \<le> q"
  shows "apply_enhancement e p = Inr p"
proof -
  have "slide_target p e = None"
    using key_index_out_of_range[OF assms(4)] assms(2,3)
    by (auto simp: slide_target_def split: option.splits)
  with assms(1,2) show ?thesis by (rule apply_enhancement_no_target)
qed

lemma apply_enhancement_falsy:
  assumes "\<not> nullish e" and "own_prop p (lit ''slides'') = JArr xs"
    and "key_index (own_prop e (lit ''slideIndex'')) = Some i" and "\<not> truthy (xs ! i) \<or> length xs \<le> i"
  shows "apply_enhancement e p = Inr p"
proof -
  from slides_array_object[OF assms(2)] have "\<not> nullish p" by auto
  then show ?thesis using assms
    by (auto simp: apply_enhancement_def slide_target_def)
qed

text \<open>
  C5: whatever the enhancement result and the presentation, and whether the merge ends
  normally or with an error, afterwards every field of the presentation other than
  \<open>slides\<close> and \<open>keyTakeaways\<close> is as before; the slides array has the same length,
  every slide is either unchanged or an object with the same fields except
  \<open>enhancedNotes\<close> and \<open>transition\<close>, and a slide that changed is addressed by the
  \<open>slideIndex\<close> of an entry of \<open>enhancedSlides\<close>; an entry whose \<open>slideIndex\<close> is a
  negative number or a number not below the slide count leaves the presentation as it
  is and throws nothing; and \<open>keyTakeaways\<close> is as before or, the enhancement result
  having one, equal to that.
\<close>

theorem merge_touches_only_addressed_slides:
  assumes "merge_enhancements enhancements presentation = (err, presentation')"
  shows "(\<forall>k. k \<noteq> lit ''slides'' \<and> k \<noteq> lit ''keyTakeaways'' \<longrightarrow>
            own_prop presentation' k = own_prop presentation k)
       \<and> (\<forall>xs. own_prop presentation (lit ''slides'') = JArr xs \<longrightarrow>
            (\<exists>xs'. own_prop presentation' (lit ''slides'') = JArr xs' \<and> length xs' = length xs
               \<and> (\<forall>i<length xs.
                     (xs' ! i = xs ! i \<or> (\<exists>kvs kvs'. xs ! i = JObj kvs \<and> xs' ! i = JObj kvs'
                        \<and> (\<forall>f. f \<noteq> lit ''enhancedNotes'' \<and> f \<noteq> lit ''transition'' \<longrightarrow>
                               map_of kvs' f = map_of kvs f)))
                   \<and> (xs' ! i \<noteq> xs ! i \<longrightarrow>
                        (\<exists>es e. own_prop enhancements (lit ''enhancedSlides'') = JArr es
                           \<and> e \<in> set es
                           \<and> key_index (own_prop e (lit ''slideIndex'')) = Some i)))))
       \<and> (\<forall>e xs q. \<not> nullish e \<and> own_prop presentation (lit ''slides'') = JArr xs
              \<and> own_prop e (lit ''slideIndex'') = JNum q \<and> (q < 0 \<or> of_nat (length xs) \<le> q) \<longrightarrow>
            apply_enhancement e presentation = Inr presentation)
       \<and> (own_prop presentation' (lit ''keyTakeaways'') = own_prop presentation (lit ''keyTakeaways'')
            \<or> (own_prop enhancements (lit ''keyTakeaways'') \<noteq> JUndefined
                \<and> own_prop presentation' (lit ''keyTakeaways'')
                    = own_prop enhancements (lit ''keyTakeaways'')))"
proof -
  let ?KT = "lit ''keyTakeaways''" and ?SL = "lit ''slides''"
  from merge_enhancements_cases[OF assms] obtain es q where
    fr: "slides_frame es presentation q"
    and es: "es = [] \<or> own_prop enhancements (lit ''enhancedSlides'') = JArr es"
    and p': "presentation' = q \<or> (truthy (own_prop enhancements ?KT)
               \<and> presentation' = put_prop q ?KT (own_prop enhancements ?KT))"
    by blast
  have ne: "?SL \<noteq> ?KT" by (simp add: lit_eq_iff)
  have sl: "own_prop presentation' ?SL = own_prop q ?SL"
    using p' put_prop_other[OF ne, of q] by auto
  have other: "\<And>k. k \<noteq> ?KT \<Longrightarrow> own_prop presentation' k = own_prop q k"
    using p' put_prop_other by auto
  have 1: "\<forall>k. k \<noteq> ?SL \<and> k \<noteq> ?KT \<longrightarrow> own_prop presentation' k = own_prop presentation k"
    using other fr by (simp add: slides_frame_def)
  have 2: "\<forall>xs. own_prop presentation ?SL = JArr xs \<longrightarrow>
            (\<exists>xs'. own_prop presentation' ?SL = JArr xs' \<and> length xs' = length xs
               \<and> (\<forall>i<length xs.
                     (xs' ! i = xs ! i \<or> (\<exists>kvs kvs'. xs ! i = JObj kvs \<and> xs' ! i = JObj kvs'
                        \<and> (\<forall>f. f \<noteq> lit ''enhancedNotes'' \<and> f \<noteq> lit ''transition'' \<longrightarrow>
                               map_of kvs' f = map_of kvs f)))
                   \<and> (xs' ! i \<noteq> xs ! i \<longrightarrow>
                        (\<exists>es e. own_prop enhancements (lit ''enhancedSlides'') = JArr es
                           \<and> e \<in> set es
                           \<and> key_index (own_prop e (lit ''slideIndex'')) = Some i))))"
  proof (intro allI impI)
    fix xs assume "own_prop presentation ?SL = JArr xs"
    then obtain xs' where xs': "own_prop q ?SL = JArr xs'" and k: "slides_kept es xs xs'"
      using fr unfolding slides_frame_def by blast
    have len: "length xs' = length xs" using k by (simp add: slides_kept_def)
    have each: "\<forall>i<length xs.
                     (xs' ! i = xs ! i \<or> (\<exists>kvs kvs'. xs ! i = JObj kvs \<and> xs' ! i = JObj kvs'
                        \<and> (\<forall>f. f \<noteq> lit ''enhancedNotes'' \<and> f \<noteq> lit ''transition'' \<longrightarrow>
                               map_of kvs' f = map_of kvs f)))
                   \<and> (xs' ! i \<noteq> xs ! i \<longrightarrow>
                        (\<exists>es e. own_prop enhancements (lit ''enhancedSlides'') = JArr es
                           \<and> e \<in> set es
                           \<and> key_index (own_prop e (lit ''slideIndex'')) = Some i))"
    proof (intro allI impI conjI)
      fix i assume i: "i < length xs"
      then have "slide_kept (xs ! i) (xs' ! i)" using k by (simp add: slides_kept_def)
      then show "xs' ! i = xs ! i \<or> (\<exists>kvs kvs'. xs ! i = JObj kvs \<and> xs' ! i = JObj kvs'
                        \<and> (\<forall>f. f \<noteq> lit ''enhancedNotes'' \<and> f \<noteq> lit ''transition'' \<longrightarrow>
                               map_of kvs' f = map_of kvs f))"
        by (simp add: slide_kept_def)
    next
      fix i assume i: "i < length xs" and d: "xs' ! i \<noteq> xs ! i"
      then have "\<exists>e\<in>set es. key_index (own_prop e (lit ''slideIndex'')) = Some i"
        using k by (simp add: slides_kept_def)
      then obtain e where e: "e \<in> set es" "key_index (own_prop e (lit ''slideIndex'')) = Some i"
        by blast
      then have "es \<noteq> []" by auto
      with es have "own_prop enhancements (lit ''enhancedSlides'') = JArr es" by simp
      with e show "\<exists>es e. own_prop enhancements (lit ''enhancedSlides'') = JArr es
                           \<and> e \<in> set es
                           \<and> key_index (own_prop e (lit ''slideIndex'')) = Some i"
        by blast
    qed
    from xs' sl len each
    show "\<exists>xs'. own_prop presentation' ?SL = JArr xs' \<and> length xs' = length xs
               \<and> (\<forall>i<length xs.
                     (xs' ! i = xs ! i \<or> (\<exists>kvs kvs'. xs ! i = JObj kvs \<and> xs' ! i = JObj kvs'
                        \<and> (\<forall>f. f \<noteq> lit ''enhancedNotes'' \<and> f \<noteq> lit ''transition'' \<longrightarrow>
                               map_of kvs' f = map_of kvs f)))
                   \<and> (xs' ! i \<noteq> xs ! i \<longrightarrow>
                        (\<exists>es e. own_prop enhancements (lit ''enhancedSlides'') = JArr es
                           \<and> e \<in> set es
                           \<and> key_index (own_prop e (lit ''slideIndex'')) = Some i)))"
      by simp
  qed
  have 3: "\<forall>e xs q. \<not> nullish e \<and> own_prop presentation ?SL = JArr xs
              \<and> own_prop e (lit ''slideIndex'') = JNum q \<and> (q < 0 \<or> of_nat (length xs) \<le> q) \<longrightarrow>
            apply_enhancement e presentation = Inr presentation"
    using apply_enhancement_out_of_range by blast
  have qkt: "own_prop q ?KT = own_prop presentation ?KT"
    using fr ne by (simp add: slides_frame_def)
  have 4: "own_prop presentation' ?KT = own_prop presentation ?KT
            \<or> (own_prop enhancements ?KT \<noteq> JUndefined
                \<and> own_prop presentation' ?KT = own_prop enhancements ?KT)"
    using p' put_prop_same[of q ?KT "own_prop enhancements ?KT"] qkt by auto
  from 1 2 3 4 show ?thesis by blast
qed


theorem merge_touches_only_addressed_slides_witness:
  "merge_enhancements example_enhancements example_presentation =
     (None,
      JObj [(lit ''title'', JStr (lit ''T'')),
            (lit ''slides'', JArr [JObj [(lit ''title'', JStr (lit ''a''))],
                                   JObj [(lit ''title'', JStr (lit ''b'')),
                                         (lit ''enhancedNotes'', JStr (lit ''n'')),
                                         (lit ''transition'', JStr (lit ''t''))]]),
            (lit ''keyTakeaways'', JArr [JStr (lit ''k'')])])
   \<and> own_prop (snd (merge_enhancements example_enhancements example_presentation)) (lit ''title'')
       = own_prop example_presentation (lit ''title'')
   \<and> apply_enhancement (JObj [(lit ''slideIndex'', JNum 7)]) example_presentation
       = Inr example_presentation"
proof -
  let ?p' = "JObj [(lit ''title'', JStr (lit ''T'')),
            (lit ''slides'', JArr [JObj [(lit ''title'', JStr (lit ''a''))],
                                   JObj [(lit ''title'', JStr (lit ''b'')),
                                         (lit ''enhancedNotes'', JStr (lit ''n'')),
                                         (lit ''transition'', JStr (lit ''t''))]]),
            (lit ''keyTakeaways'', JArr [JStr (lit ''k'')])]"
  have m: "merge_enhancements example_enhancements example_presentation = (None, ?p')"
    by (simp add: merge_enhancements_def example_enhancements_def example_presentation_def
        apply_enhancement_def slide_target_def set_slide_field_def assign_prop_def lit_eq_iff)
  note inst = merge_touches_only_addressed_slides[OF m]
  have k: "lit ''title'' \<noteq> lit ''slides'' \<and> lit ''title'' \<noteq> lit ''keyTakeaways''"
    by (simp add: lit_eq_iff)
  from inst k have 1: "own_prop ?p' (lit ''title'') = own_prop example_presentation (lit ''title'')"
    by blast
  have h: "\<not> nullish (JObj [(lit ''slideIndex'', JNum 7)])
      \<and> own_prop example_presentation (lit ''slides'') =
          JArr [JObj [(lit ''title'', JStr (lit ''a''))], JObj [(lit ''title'', JStr (lit ''b''))]]
      \<and> own_prop (JObj [(lit ''slideIndex'', JNum 7)]) (lit ''slideIndex'') = JNum 7
      \<and> ((7::rat) < 0 \<or> of_nat (length [JObj [(lit ''title'', JStr (lit ''a''))],
             JObj [(lit ''title'', JStr (lit ''b''))]]) \<le> (7::rat))"
    by (simp add: example_presentation_def lit_eq_iff)
  from inst h have 3: "apply_enhancement (JObj [(lit ''slideIndex'', JNum 7)]) example_presentation
       = Inr example_presentation"
    by blast
  show ?thesis using m 1 3 by simp
qed

text \<open>
  C10: an entry whose \<open>slideIndex\<close> addresses a falsy element of the slides array
  (\<open>null\<close>, \<open>false\<close>, 0, the empty string) leaves the presentation as it is and throws
  nothing, exactly as an entry whose index is beyond the array does; and after the whole
  merge a falsy slide is still the value it was.
\<close>

theorem falsy_slide_skipped:
  "(\<not> nullish e \<and> own_prop presentation (lit ''slides'') = JArr xs
      \<and> key_index (own_prop e (lit ''slideIndex'')) = Some i
      \<and> (\<not> truthy (xs ! i) \<or> length xs \<le> i) \<longrightarrow>
      apply_enhancement e presentation = Inr presentation)
   \<and> (merge_enhancements enhancements presentation = (err, presentation')
      \<and> own_prop presentation (lit ''slides'') = JArr xs \<and> i < length xs \<and> \<not> truthy (xs ! i) \<longrightarrow>
      (\<exists>xs'. own_prop presentation' (lit ''slides'') = JArr xs' \<and> length xs' = length xs
         \<and> xs' ! i = xs ! i))"
proof (intro conjI impI)
  assume "\<not> nullish e \<and> own_prop presentation (lit ''slides'') = JArr xs
      \<and> key_index (own_prop e (lit ''slideIndex'')) = Some i
      \<and> (\<not> truthy (xs ! i) \<or> length xs \<le> i)"
  then show "apply_enhancement e presentation = Inr presentation"
    using apply_enhancement_falsy by blast
next
  assume h: "merge_enhancements enhancements presentation = (err, presentation')
      \<and> own_prop presentation (lit ''slides'') = JArr xs \<and> i < length xs \<and> \<not> truthy (xs ! i)"
  then obtain es q where fr: "slides_frame es presentation q"
    and p': "presentation' = q \<or> presentation' =
        put_prop q (lit ''keyTakeaways'') (own_prop enhancements (lit ''keyTakeaways''))"
    using merge_enhancements_cases[of enhancements presentation err presentation'] by blast
  have ne: "lit ''slides'' \<noteq> lit ''keyTakeaways''" by (simp add: lit_eq_iff)
  have sl: "own_prop presentation' (lit ''slides'') = own_prop q (lit ''slides'')"
    using p' put_prop_other[OF ne, of q] by auto
  from fr h obtain xs' where xs': "own_prop q (lit ''slides'') = JArr xs'"
    and k: "slides_kept es xs xs'"
    unfolding slides_frame_def by blast
  from k h have "length xs' = length xs" "xs' ! i = xs ! i"
    by (auto simp: slides_kept_def)
  with xs' sl show "\<exists>xs'. own_prop presentation' (lit ''slides'') = JArr xs'
      \<and> length xs' = length xs \<and> xs' ! i = xs ! i"
    by simp
qed

theorem falsy_slide_skipped_witness:
  "merge_enhancements falsy_slides_enhancements falsy_slides_presentation
     = (None, falsy_slides_presentation)
   \<and> own_prop falsy_slides_presentation (lit ''slides'')
       = JArr [JNull, JBool False, JNum 0, JStr []]
   \<and> \<not> truthy ([JNull, JBool False, JNum 0, JStr []] ! 2)
   \<and> key_index (own_prop (JObj [(lit ''slideIndex'', JNum 2)]) (lit ''slideIndex'')) = Some 2
   \<and> apply_enhancement (JObj [(lit ''slideIndex'', JNum 2)]) falsy_slides_presentation
       = Inr falsy_slides_presentation"
proof -
  have m: "merge_enhancements falsy_slides_enhancements falsy_slides_presentation
     = (None, falsy_slides_presentation)"
    by (simp add: merge_enhancements_def falsy_slides_enhancements_def
        falsy_slides_presentation_def apply_enhancement_def slide_target_def lit_eq_iff)
  have h: "\<not> nullish (JObj [(lit ''slideIndex'', JNum 2)])
      \<and> own_prop falsy_slides_presentation (lit ''slides'')
          = JArr [JNull, JBool False, JNum 0, JStr []]
      \<and> key_index (own_prop (JObj [(lit ''slideIndex'', JNum 2)]) (lit ''slideIndex'')) = Some 2
      \<and> (\<not> truthy ([JNull, JBool False, JNum 0, JStr []] ! 2)
           \<or> length [JNull, JBool False, JNum 0, JStr []] \<le> 2)"
    by (simp add: falsy_slides_presentation_def)
  from falsy_slide_skipped[of "JObj [(lit ''slideIndex'', JNum 2)]" falsy_slides_presentation
      "[JNull, JBool False, JNum 0, JStr []]" 2] h
  have "apply_enhancement (JObj [(lit ''slideIndex'', JNum 2)]) falsy_slides_presentation
       = Inr falsy_slides_presentation"
    by blast
  with m h show ?thesis by simp
qed

section \<open>A failed enhancement\<close>

lemma strip_stage_texts:
  "strip_code_fence stage1_text = stage1_text" "strip_code_fence stage2_text = stage2_text"
  by (simp_all add: stage1_text_def stage2_text_def strip_code_fence_def trim_def lit_def
      js_whitespace_def startsWith_def endsWith_def Let_def)

lemma stage_texts_differ: "stage2_text \<noteq> stage1_text"
  by (simp add: stage1_text_def stage2_text_def lit_eq_iff)

lemma example_key: "MEGALLM_API_KEY example_config \<noteq> []"
  by (simp add: example_config_def lit_Nil_iff)

lemma example_hostname:
  "url_hostname example_platform (MEGALLM_API_URL example_config) = Some (lit ''api.anthropic.com'')"
  by (simp add: example_config_def example_platform_def)

lemma index_of_key_0: "index_of_key (lit ''0'') = Some 0"
  by (simp add: index_of_key_def lit_def is_digit_def)

lemma example_call:
  "snd (snd (callMegaLLM example_config example_platform now messages maxTokens st)) =
     Inr (JStr (if maxTokens = 8000 then stage1_text else stage2_text))"
  using example_key
  by (simp add: callMegaLLM_def example_hostname isAnthropicFormat_def Let_def)
     (simp add: example_platform_def build_request_def Let_def response_text_def get_prop_def
        try_bind_def lit_eq_iff index_of_key_0 isAnthropicFormat_def)

lemma example_structure:
  "snd (snd (generatePresentationStructure example_config example_platform now topic st)) =
     Inr stage1_document"
  using example_call[of now _ 8000 st]
  by (simp add: generatePresentationStructure_def split_beta try_bind_def parse_response_def
      strip_stage_texts) (simp add: example_platform_def)

lemma example_merge:
  "merge_enhancements stage2_enhancements stage1_document =
     (Some TypeError,
      JObj [(lit ''slides'', JArr [JObj [(lit ''title'', JStr (lit ''A'')),
                                          (lit ''enhancedNotes'', JStr (lit ''N'')),
                                          (lit ''transition'', JStr (lit ''T''))]])])"
  by (simp add: merge_enhancements_def stage2_enhancements_def stage1_document_def
      apply_enhancement_def slide_target_def set_slide_field_def lit_eq_iff)

lemma example_enhance:
  "snd (snd (enhancePresentation example_config example_platform now stage1_document st)) =
     snd (merge_enhancements stage2_enhancements stage1_document)"
proof -
  have sl: "slides_slice_0_5 stage1_document =
      Inr (JArr [JObj [(lit ''title'', JStr (lit ''A''))]])"
    by (simp add: slides_slice_0_5_def stage1_document_def get_prop_def try_bind_def)
  have p: "parse_response example_platform (JStr stage2_text) = Inr stage2_enhancements"
    by (simp add: parse_response_def strip_stage_texts)
       (simp add: example_platform_def stage_texts_differ)
  show ?thesis
    using example_call[of now _ 4000 st]
    by (simp add: enhancePresentation_def sl split_beta try_bind_def p)
qed

lemma nullish_put_prop: "nullish (put_prop q f v) = nullish q"
  by (cases q) simp_all

lemma merge_enhancements_nullish:
  "nullish (snd (merge_enhancements enhancements p)) = nullish p"
proof -
  obtain err p' where m: "merge_enhancements enhancements p = (err, p')"
    by (cases "merge_enhancements enhancements p")
  from merge_enhancements_cases[OF m] obtain es q where
    "slides_frame es p q"
    and "p' = q \<or> p' = put_prop q (lit ''keyTakeaways'') (own_prop enhancements (lit ''keyTakeaways''))"
    by blast
  then have "nullish p' = nullish p"
    by (auto simp: slides_frame_def nullish_put_prop)
  with m show ?thesis by simp
qed

lemma enhancePresentation_nullish:
  "nullish (snd (snd (enhancePresentation cfg pf now p st))) = nullish p"
  by (simp add: enhancePresentation_def merge_enhancements_nullish
      split: sum.splits prod.splits)

lemma add_metadata_succeeds: "\<not> nullish p \<Longrightarrow> \<exists>document. add_metadata uuid now topic p = Inr document"
  by (simp add: add_metadata_def assign_prop_def try_bind_def nullish_put_prop)

text \<open>
  Once the structure stage has returned a value other than \<open>null\<close>, the request is
  answered with status 200, whatever the enhancement stage does.
\<close>

lemma enhancement_never_fails_the_request:
  assumes "trim s \<noteq> []"
    and "generatePresentationStructure cfg pf t1 s st = (st1, reqs1, Inr presentation)"
    and "\<not> nullish presentation"
  shows "\<exists>document. snd (snd (generate cfg pf uuid t1 t2 t3 (JStr s) st)) = Response 200 document"
proof -
  obtain st2 reqs2 enhanced where
    e: "enhancePresentation cfg pf t2 presentation st1 = (st2, reqs2, enhanced)"
    by (cases "enhancePresentation cfg pf t2 presentation st1") auto
  have "nullish enhanced = nullish presentation"
    using enhancePresentation_nullish[of cfg pf t2 presentation st1] e by simp
  with assms(3) obtain document where "add_metadata uuid t3 s enhanced = Inr document"
    using add_metadata_succeeds by blast
  moreover have "s \<noteq> []" using assms(1) by (auto simp: trim_def)
  ultimately show ?thesis using assms(1,2) e by (simp add: generate_def)
qed

text \<open>
  The presentation is returned as the structure stage made it when the enhancement
  stage fails before the merge: at the slice, in the adapter call, or in parsing its
  answer.
\<close>

lemma enhancement_failure_before_merge:
  "slides_slice_0_5 presentation = Inl err \<Longrightarrow>
     enhancePresentation cfg pf now presentation st = (st, [], presentation)"
  "slides_slice_0_5 presentation = Inr first5 \<Longrightarrow>
   try_bind (snd (snd (callMegaLLM cfg pf now
      [\<lparr>role = lit ''system'', content = enhance_systemPrompt\<rparr>,
       \<lparr>role = lit ''user'',
        content = lit ''Enhance this presentation: '' @ JSON_stringify pf first5\<rparr>] 4000 st)))
     (parse_response pf) = Inl err \<Longrightarrow>
     snd (snd (enhancePresentation cfg pf now presentation st)) = presentation"
  by (auto simp: enhancePresentation_def split: prod.splits)

text \<open>
  C1, at an input where the code departs from it: the structure stage returns a
  document of one slide; the enhancement text parses to one entry for slide 0 followed
  by \<open>null\<close>. The merge throws a TypeError at the \<open>null\<close> entry, so the enhancement
  stage has failed, and the request is still answered with status 200; but the document
  returned has the \<open>enhancedNotes\<close> and \<open>transition\<close> of the first entry on slide 0,
  and is not the stage-1 document with \<open>id\<close>, \<open>createdAt\<close> and \<open>topic\<close> added.
\<close>

theorem failed_enhancement_leaves_partial_merge:
  "snd (snd (generate example_config example_platform (lit ''id-1'') (lit ''t1'') (lit ''t2'')
        (lit ''t3'') (JStr (lit ''Cats'')) (startup_status example_config))) =
     Response 200 (JObj
       [(lit ''slides'', JArr [JObj [(lit ''title'', JStr (lit ''A'')),
                                     (lit ''enhancedNotes'', JStr (lit ''N'')),
                                     (lit ''transition'', JStr (lit ''T''))]]),
        (lit ''id'', JStr (lit ''id-1'')),
        (lit ''createdAt'', JStr (lit ''t3'')),
        (lit ''topic'', JStr (lit ''Cats''))])
   \<and> fst (merge_enhancements stage2_enhancements stage1_document) = Some TypeError
   \<and> add_metadata (lit ''id-1'') (lit ''t3'') (lit ''Cats'') stage1_document =
       Inr (JObj
         [(lit ''slides'', JArr [JObj [(lit ''title'', JStr (lit ''A''))]]),
          (lit ''id'', JStr (lit ''id-1'')),
          (lit ''createdAt'', JStr (lit ''t3'')),
          (lit ''topic'', JStr (lit ''Cats''))])"
proof -
  have t: "trim (lit ''Cats'') \<noteq> []" "lit ''Cats'' \<noteq> []"
    by (simp_all add: trim_def lit_def js_whitespace_def)
  have m: "add_metadata (lit ''id-1'') (lit ''t3'') (lit ''Cats'') stage1_document =
       Inr (JObj
         [(lit ''slides'', JArr [JObj [(lit ''title'', JStr (lit ''A''))]]),
          (lit ''id'', JStr (lit ''id-1'')),
          (lit ''createdAt'', JStr (lit ''t3'')),
          (lit ''topic'', JStr (lit ''Cats''))])"
    by (simp add: add_metadata_def stage1_document_def assign_prop_def try_bind_def lit_eq_iff)
  have m': "add_metadata (lit ''id-1'') (lit ''t3'') (lit ''Cats'')
       (snd (merge_enhancements stage2_enhancements stage1_document)) =
       Inr (JObj
       [(lit ''slides'', JArr [JObj [(lit ''title'', JStr (lit ''A'')),
                                     (lit ''enhancedNotes'', JStr (lit ''N'')),
                                     (lit ''transition'', JStr (lit ''T''))]]),
        (lit ''id'', JStr (lit ''id-1'')),
        (lit ''createdAt'', JStr (lit ''t3'')),
        (lit ''topic'', JStr (lit ''Cats''))])"
    by (simp add: example_merge add_metadata_def assign_prop_def try_bind_def lit_eq_iff)
  have g: "snd (snd (generate example_config example_platform (lit ''id-1'') (lit ''t1'') (lit ''t2'')
        (lit ''t3'') (JStr (lit ''Cats'')) (startup_status example_config))) =
     (case add_metadata (lit ''id-1'') (lit ''t3'') (lit ''Cats'')
        (snd (merge_enhancements stage2_enhancements stage1_document)) of
        Inl err \<Rightarrow> failure_response example_platform err
      | Inr document \<Rightarrow> Response 200 document)"
    using t example_structure[of "lit ''t1''" "lit ''Cats''" "startup_status example_config"]
      example_enhance
    by (simp add: generate_def split_beta split: prod.splits sum.splits)
  show ?thesis using g m m' by (simp add: example_merge)
qed

end
